theory Spec2Isabelle
  imports Complex_Main "HOL-Library.Sublist"
begin

section \<open>Values shared by the scripts\<close>

text \<open>
  Python exceptions are values. \<open>AssertionError\<close> is the validity failure of the lens
  simulator; the other constructors are the exceptions the scripts can meet
  (\<open>IndexError\<close> from indexing, \<open>RuntimeError\<close> from the tensor library,
  \<open>FileNotFoundError\<close> from \<open>open\<close>); \<open>OtherException\<close> stands for any further
  subclass of \<open>Exception\<close>, named by its class.
\<close>

datatype exn = AssertionError | IndexError | RuntimeError | FileNotFoundError
  | OtherException string

definition ebind :: "exn + 'a \<Rightarrow> ('a \<Rightarrow> exn + 'b) \<Rightarrow> exn + 'b" where
  "ebind m f = (case m of Inl e \<Rightarrow> Inl e | Inr x \<Rightarrow> f x)"

text \<open>
  Tensor elements. A floating-point element is a finite number, an infinity or NaN.
  Finite arithmetic is idealised to exact real arithmetic (no rounding, no overflow, one
  zero); the special values follow IEEE 754, because the scripts divide by values that can
  be zero and multiply by zero constants, where HOL's own \<open>x / 0 = 0\<close> would hide what
  the program computes.
\<close>

datatype fval = Fin real | PInf | NInf | NaN

fun is_finite :: "fval \<Rightarrow> bool" where
  "is_finite (Fin _) = True"
| "is_finite _ = False"

fun fneg :: "fval \<Rightarrow> fval" where
  "fneg (Fin a) = Fin (- a)"
| "fneg PInf = NInf"
| "fneg NInf = PInf"
| "fneg NaN = NaN"

fun fadd :: "fval \<Rightarrow> fval \<Rightarrow> fval" where
  "fadd (Fin a) (Fin b) = Fin (a + b)"
| "fadd (Fin a) PInf = PInf"
| "fadd (Fin a) NInf = NInf"
| "fadd PInf (Fin b) = PInf"
| "fadd PInf PInf = PInf"
| "fadd PInf NInf = NaN"
| "fadd NInf (Fin b) = NInf"
| "fadd NInf NInf = NInf"
| "fadd NInf PInf = NaN"
| "fadd NaN _ = NaN"
| "fadd _ NaN = NaN"

definition fsub :: "fval \<Rightarrow> fval \<Rightarrow> fval" where
  "fsub a b = fadd a (fneg b)"

text \<open>The infinity with the sign of a nonzero real.\<close>

definition inf_of_sign :: "real \<Rightarrow> fval" where
  "inf_of_sign a = (if 0 < a then PInf else NInf)"

fun fmul :: "fval \<Rightarrow> fval \<Rightarrow> fval" where
  "fmul (Fin a) (Fin b) = Fin (a * b)"
| "fmul (Fin a) PInf = (if a = 0 then NaN else inf_of_sign a)"
| "fmul (Fin a) NInf = (if a = 0 then NaN else inf_of_sign (- a))"
| "fmul PInf (Fin b) = (if b = 0 then NaN else inf_of_sign b)"
| "fmul NInf (Fin b) = (if b = 0 then NaN else inf_of_sign (- b))"
| "fmul PInf PInf = PInf"
| "fmul PInf NInf = NInf"
| "fmul NInf PInf = NInf"
| "fmul NInf NInf = PInf"
| "fmul NaN _ = NaN"
| "fmul _ NaN = NaN"

text \<open>Division: \<open>0 / 0\<close> and \<open>inf / inf\<close> are NaN, a nonzero number over zero is an infinity.\<close>

fun fdiv :: "fval \<Rightarrow> fval \<Rightarrow> fval" where
  "fdiv (Fin a) (Fin b) =
     (if b = 0 then (if a = 0 then NaN else inf_of_sign a) else Fin (a / b))"
| "fdiv (Fin a) PInf = Fin 0"
| "fdiv (Fin a) NInf = Fin 0"
| "fdiv PInf (Fin b) = (if b < 0 then NInf else PInf)"
| "fdiv NInf (Fin b) = (if b < 0 then PInf else NInf)"
| "fdiv PInf PInf = NaN"
| "fdiv PInf NInf = NaN"
| "fdiv NInf PInf = NaN"
| "fdiv NInf NInf = NaN"
| "fdiv NaN _ = NaN"
| "fdiv _ NaN = NaN"

section \<open>Tensors\<close>

text \<open>
  A tensor is its sizes and its elements in row-major order, as the tensor library
  stores a contiguous tensor. A well-formed tensor has as many elements as its shape says.
\<close>

record tensor =
  shape :: "nat list"
  data :: "fval list"

definition wf_tensor :: "tensor \<Rightarrow> bool" where
  "wf_tensor t = (length (data t) = prod_list (shape t))"

definition tensor_dim :: "tensor \<Rightarrow> nat" where
  "tensor_dim t = length (shape t)"

text \<open>\<open>t.unsqueeze(0)\<close> and \<open>t.squeeze(0)\<close>: the latter leaves a tensor whose first size is
  not 1 (or that has no dimension) as it is.\<close>

definition unsqueeze0 :: "tensor \<Rightarrow> tensor" where
  "unsqueeze0 t = t\<lparr>shape := 1 # shape t\<rparr>"

definition squeeze0 :: "tensor \<Rightarrow> tensor" where
  "squeeze0 t = (case shape t of [] \<Rightarrow> t
                 | n # ns \<Rightarrow> if n = 1 then t\<lparr>shape := ns\<rparr> else t)"

definition zeros_like :: "tensor \<Rightarrow> tensor" where
  "zeros_like t = \<lparr>shape = shape t, data = replicate (prod_list (shape t)) (Fin 0)\<rparr>"

text \<open>
  The index assignment \<open>t[:, c, :, :] = v\<close>. Four indices on a tensor of fewer than four
  dimensions, or an index \<open>c\<close> outside dimension 1, raise \<open>IndexError\<close>; otherwise every
  element whose index along dimension 1 is \<open>c\<close> becomes \<open>v\<close>. The element at flat position
  \<open>k\<close> has index \<open>(k div inner) mod ch\<close> along dimension 1, where \<open>inner\<close> is the product
  of the sizes after dimension 1.
\<close>

definition channel_of :: "nat list \<Rightarrow> nat \<Rightarrow> nat" where
  "channel_of shp k = (k div prod_list (drop 2 shp)) mod (shp ! 1)"

definition set_channel :: "tensor \<Rightarrow> nat \<Rightarrow> fval \<Rightarrow> exn + tensor" where
  "set_channel t c v =
     (if tensor_dim t < 4 then Inl IndexError
      else if shape t ! 1 \<le> c then Inl IndexError
      else Inr (t\<lparr>data := map (\<lambda>k. if channel_of (shape t) k = c then v else data t ! k)
                               [0..<length (data t)]\<rparr>))"

text \<open>Elementwise product and sum of two tensors of the same shape (the only use the
  scripts make of them: the operands come from \<open>zeros_like\<close>).\<close>

definition tmul :: "tensor \<Rightarrow> tensor \<Rightarrow> tensor" where
  "tmul a b = \<lparr>shape = shape a, data = map2 fmul (data a) (data b)\<rparr>"

definition tadd :: "tensor \<Rightarrow> tensor \<Rightarrow> tensor" where
  "tadd a b = \<lparr>shape = shape a, data = map2 fadd (data a) (data b)\<rparr>"

section \<open>fix_denormalize.py\<close>

definition safe_denormalize :: "tensor \<Rightarrow> exn + tensor" where
  "safe_denormalize tensor0 =
     (let original_dim = tensor_dim tensor0;
          tensor = (if original_dim = 3 then unsqueeze0 tensor0 else tensor0);
          mean0 = zeros_like tensor;
          std0 = zeros_like tensor
      in ebind (set_channel mean0 0 (Fin 0.485)) (\<lambda>mean1.
         ebind (set_channel mean1 1 (Fin 0.456)) (\<lambda>mean2.
         ebind (set_channel mean2 2 (Fin 0.406)) (\<lambda>mean.
         ebind (set_channel std0 0 (Fin 0.229)) (\<lambda>std1.
         ebind (set_channel std1 1 (Fin 0.224)) (\<lambda>std2.
         ebind (set_channel std2 2 (Fin 0.225)) (\<lambda>std.
         let result = tadd (tmul tensor std) mean
         in Inr (if original_dim = 3 then squeeze0 result else result))))))))"

text \<open>Element \<open>[b, c, h, w]\<close> of a tensor of four dimensions.\<close>

definition get4 :: "tensor \<Rightarrow> nat \<Rightarrow> nat \<Rightarrow> nat \<Rightarrow> nat \<Rightarrow> fval" where
  "get4 t b c h w =
     data t ! (((b * (shape t ! 1) + c) * (shape t ! 2) + h) * (shape t ! 3) + w)"


text \<open>
  The tensor that is \<open>a\<close>, \<open>b\<close>, \<open>c\<close> on channels 0, 1, 2 and zero elsewhere: what the
  three index assignments make of \<open>zeros_like t\<close> (lemma \<open>three_channels\<close> below).
\<close>

definition chan3 :: "tensor \<Rightarrow> fval \<Rightarrow> fval \<Rightarrow> fval \<Rightarrow> tensor" where
  "chan3 t a b c =
     \<lparr>shape = shape t,
      data = map (\<lambda>k. if channel_of (shape t) k = 2 then c
                       else if channel_of (shape t) k = 1 then b
                       else if channel_of (shape t) k = 0 then a else Fin 0)
                 [0..<prod_list (shape t)]\<rparr>"

text \<open>Concrete tensors: one RGB pixel without and with a batch dimension, and a batch of
  one four-channel pixel whose fourth channel is NaN.\<close>

definition rgb_pixel :: tensor where
  "rgb_pixel = \<lparr>shape = [3, 1, 1], data = [Fin 1, Fin 0, Fin (- 1)]\<rparr>"

definition rgb_batch :: tensor where
  "rgb_batch = \<lparr>shape = [1, 3, 1, 1], data = [Fin 1, Fin 0, Fin (- 1)]\<rparr>"

definition rgba_pixel :: tensor where
  "rgba_pixel = \<lparr>shape = [1, 4, 1, 1], data = [Fin 0, Fin 0, Fin 0, Fin 5]\<rparr>"

definition nan_tensor :: tensor where
  "nan_tensor = \<lparr>shape = [1, 4, 1, 1], data = [Fin 0, Fin 0, Fin 0, NaN]\<rparr>"

section \<open>fix_notebook.py\<close>

text \<open>Python's \<open>sub in s\<close> on strings.\<close>

definition str_contains :: "string \<Rightarrow> string \<Rightarrow> bool" where
  "str_contains s sub = sublist sub s"

text \<open>Python's \<open>s.replace(old, new)\<close>: the occurrences of \<open>old\<close> are found from left to
  right and do not overlap; an empty \<open>old\<close> matches before every character and at the end.\<close>

function replace_str :: "string \<Rightarrow> string \<Rightarrow> string \<Rightarrow> string" where
  "replace_str old new s =
     (if old = [] then new @ concat (map (\<lambda>c. c # new) s)
      else if prefix old s then new @ replace_str old new (drop (length old) s)
      else (case s of [] \<Rightarrow> [] | c # cs \<Rightarrow> c # replace_str old new cs))"
  by pat_completeness auto
termination
  by (relation "measure (\<lambda>(old, new, s). length s)") (auto simp: prefix_def)

declare replace_str.simps [simp del]

text \<open>
  A notebook document is the JSON value read by \<open>json.load\<close>: an ordered list of cells and
  the remaining top-level keys. A cell has a type, source lines, metadata and, for a code
  cell, an execution count and outputs (\<open>None\<close> where the key is absent). The fields the
  script does not read are kept as JSON values.
\<close>

datatype json = JNull | JBool bool | JNum int | JStr string | JList "json list"
  | JObj "(string \<times> json) list"

record cell =
  cell_type :: string
  execution_count :: "json option"
  metadata :: json
  source :: "string list"
  outputs :: "json option"

record notebook =
  cells :: "cell list"
  nb_rest :: "(string \<times> json) list"

text \<open>
  The world the script runs in: the files (a path to the document stored there, compared as
  parsed JSON, so the indentation of \<open>json.dump\<close> is not modelled) and the lines printed.
\<close>

record world =
  files :: "string \<rightharpoonup> notebook"
  stdout :: "string list"

definition NOTEBOOK_PATH :: string where
  "NOTEBOOK_PATH = ''/home/yz/DeepLens/1_end2end_5lines.ipynb''"

definition backup_path :: string where
  "backup_path = NOTEBOOK_PATH @ ''.bak''"

definition import_cell :: cell where
  "import_cell = \<lparr>cell_type = ''code'', execution_count = Some JNull, metadata = JObj [],
     source = [''# Fix for tensor dimension issues\<newline>'',
               ''from fix_denormalize import safe_denormalize, vis_sample''],
     outputs = Some (JList [])\<rparr>"

definition dataset_path_cell :: cell where
  "dataset_path_cell = \<lparr>cell_type = ''code'', execution_count = Some JNull, metadata = JObj [],
     source = [''# Update DIV2K dataset path\<newline>'',
               ''DIV2K_PATH = '/nas1/DIV2K'\<newline>'',
               ''os.makedirs(DIV2K_PATH, exist_ok=True)\<newline>'',
               ''print(f'DIV2K dataset will be stored in {DIV2K_PATH}')''],
     outputs = Some (JList [])\<rparr>"

text \<open>The body of the inner loop, \<open>for line in cell['source']\<close>: what is appended to
  \<open>new_source\<close> for one line.\<close>

definition rewrite_line :: "string \<Rightarrow> string" where
  "rewrite_line line =
     (if str_contains line ''DIV2K_PATH'' \<and> \<not> str_contains line ''/nas1/DIV2K''
      then ''    DIV2K_PATH = '/nas1/DIV2K'  # Updated path\<newline>''
      else if str_contains line ''denormalize_ImageNet''
      then replace_str ''denormalize_ImageNet'' ''safe_denormalize'' line
      else line)"

text \<open>The condition of the outer loop and what an iteration does to one cell.\<close>

definition is_train_cell :: "cell \<Rightarrow> bool" where
  "is_train_cell c =
     (cell_type c = ''code'' \<and> str_contains (concat (source c)) ''def end2end_train'')"

definition patch_cell :: "cell \<Rightarrow> cell" where
  "patch_cell c = (if is_train_cell c then c\<lparr>source := map rewrite_line (source c)\<rparr> else c)"

text \<open>
  The loop \<open>for cell in notebook['cells']\<close>. The cells are objects on a heap (a list, the
  address is the position) and \<open>notebook['cells']\<close> is a list of addresses: the
  assignment \<open>cell['source'] = new_source\<close> updates the object in place, and
  \<open>modified_cells\<close> collects the addresses visited (the script never reads it again).
\<close>

fun patch_loop :: "nat list \<Rightarrow> cell list \<Rightarrow> nat list \<Rightarrow> cell list \<times> nat list" where
  "patch_loop [] heap modified_cells = (heap, modified_cells)"
| "patch_loop (a # as) heap modified_cells =
     (let cell = heap ! a;
          heap' = (if cell_type cell = ''code''
                      \<and> str_contains (concat (source cell)) ''def end2end_train''
                   then heap[a := cell\<lparr>source := map rewrite_line (source cell)\<rparr>]
                   else heap)
      in patch_loop as heap' (modified_cells @ [a]))"

definition final_prints :: "string list" where
  "final_prints =
     [''Modified notebook '' @ NOTEBOOK_PATH @
        '' to use safe_denormalize function and update DIV2K path'',
      ''Please run the notebook and use the vis_sample function instead of manual visualization code'',
      ''Example usage of vis_sample:'',
      ''```'',
      ''vis_sample(img_org, img_render, img_rec, loss=loss.item(), epoch=epoch, batch=batch_idx)'',
      ''```'']"

text \<open>
  The script. \<open>json.load\<close> puts the cells on the heap; the backup is written before any
  mutation; the two new cells are allocated after the loaded ones; the loop runs; then
  \<open>notebook['cells'][0]\<close> raises \<open>IndexError\<close> on a document without cells, and
  otherwise the reassembled list of addresses is dereferenced by \<open>json.dump\<close>.
\<close>

definition fix_notebook :: "world \<Rightarrow> (exn + unit) \<times> world" where
  "fix_notebook w =
     (case files w NOTEBOOK_PATH of
        None \<Rightarrow> (Inl FileNotFoundError, w)
      | Some nb \<Rightarrow>
          let heap0 = cells nb;
              cell_refs = [0..<length heap0];
              w1 = w\<lparr>files := (files w)(backup_path \<mapsto> nb\<lparr>cells := map ((!) heap0) cell_refs\<rparr>),
                     stdout := stdout w @ [''Created backup at '' @ backup_path]\<rparr>;
              heap1 = heap0 @ [import_cell, dataset_path_cell];
              import_ref = length heap0;
              dataset_ref = Suc (length heap0);
              (heap2, modified_cells) = patch_loop cell_refs heap1 []
          in (case cell_refs of
                [] \<Rightarrow> (Inl IndexError, w1)
              | first # rest \<Rightarrow>
                  let new_refs = [first] @ [import_ref, dataset_ref] @ rest
                  in (Inr (),
                      w1\<lparr>files := (files w1)(NOTEBOOK_PATH \<mapsto> nb\<lparr>cells := map ((!) heap2) new_refs\<rparr>),
                         stdout := stdout w1 @ final_prints\<rparr>)))"

text \<open>Concrete cells and a world holding a notebook of given cells.\<close>

definition train_cell :: cell where
  "train_cell = \<lparr>cell_type = ''code'', execution_count = Some (JNum 3), metadata = JObj [],
     source = [''def end2end_train(lens, net):\<newline>'',
               ''    DIV2K_PATH = './datasets'\<newline>'',
               ''    img = denormalize_ImageNet(img_org)\<newline>'',
               ''    return img\<newline>''],
     outputs = Some (JList [])\<rparr>"

definition markdown_cell :: cell where
  "markdown_cell = \<lparr>cell_type = ''markdown'', execution_count = None, metadata = JObj [],
     source = [''def end2end_train(lens, net):\<newline>'',
               ''    img = denormalize_ImageNet(img_org)\<newline>''],
     outputs = None\<rparr>"

definition world_of :: "cell list \<Rightarrow> world" where
  "world_of cs = \<lparr>files = [NOTEBOOK_PATH \<mapsto> \<lparr>cells = cs, nb_rest = []\<rparr>], stdout = []\<rparr>"



definition mixed_cell :: cell where
  "mixed_cell = \<lparr>cell_type = ''code'', execution_count = Some JNull, metadata = JObj [],
     source = [''def end2end_train(lens, net):\<newline>'',
               ''    DIV2K_PATH = denormalize_ImageNet(root)\<newline>''],
     outputs = Some (JList [])\<rparr>"

definition new_path_line :: string where
  "new_path_line = ''    DIV2K_PATH = '/nas1/DIV2K'  # Updated path\<newline>''"

definition patched_train_cell :: cell where
  "patched_train_cell = \<lparr>cell_type = ''code'', execution_count = Some (JNum 3), metadata = JObj [],
     source = [''def end2end_train(lens, net):\<newline>'',
               new_path_line,
               ''    img = safe_denormalize(img_org)\<newline>'',
               ''    return img\<newline>''],
     outputs = Some (JList [])\<rparr>"

definition patched_mixed_cell :: cell where
  "patched_mixed_cell = \<lparr>cell_type = ''code'', execution_count = Some JNull, metadata = JObj [],
     source = [''def end2end_train(lens, net):\<newline>'', new_path_line],
     outputs = Some (JList [])\<rparr>"

section \<open>Tensor operations of the PSF plotters\<close>

fun flog :: "fval \<Rightarrow> fval" where
  "flog (Fin a) = (if 0 < a then Fin (ln a) else if a = 0 then NInf else NaN)"
| "flog PInf = PInf"
| "flog NInf = NaN"
| "flog NaN = NaN"

text \<open>Comparison of two elements; every comparison with NaN is false.\<close>

fun fle :: "fval \<Rightarrow> fval \<Rightarrow> bool" where
  "fle (Fin a) (Fin b) = (a \<le> b)"
| "fle (Fin a) PInf = True"
| "fle (Fin a) NInf = False"
| "fle PInf (Fin b) = False"
| "fle PInf PInf = True"
| "fle PInf NInf = False"
| "fle NInf (Fin b) = True"
| "fle NInf PInf = True"
| "fle NInf NInf = True"
| "fle NaN _ = False"
| "fle _ NaN = False"

text \<open>The reductions \<open>max\<close> and \<open>min\<close> of the tensor library return NaN as soon as an
  element is NaN, and raise \<open>RuntimeError\<close> on a tensor without elements.\<close>

definition fmax2 :: "fval \<Rightarrow> fval \<Rightarrow> fval" where
  "fmax2 a b = (if a = NaN \<or> b = NaN then NaN else if fle a b then b else a)"

definition fmin2 :: "fval \<Rightarrow> fval \<Rightarrow> fval" where
  "fmin2 a b = (if a = NaN \<or> b = NaN then NaN else if fle a b then a else b)"

definition tmax :: "tensor \<Rightarrow> exn + fval" where
  "tmax t = (case data t of [] \<Rightarrow> Inl RuntimeError | x # xs \<Rightarrow> Inr (foldl fmax2 x xs))"

definition tmin :: "tensor \<Rightarrow> exn + fval" where
  "tmin t = (case data t of [] \<Rightarrow> Inl RuntimeError | x # xs \<Rightarrow> Inr (foldl fmin2 x xs))"

definition tsum :: "tensor \<Rightarrow> fval" where
  "tsum t = foldl fadd (Fin 0) (data t)"

text \<open>An elementwise operation, such as the operations between a tensor and a scalar.\<close>

definition tmap :: "(fval \<Rightarrow> fval) \<Rightarrow> tensor \<Rightarrow> tensor" where
  "tmap f t = t\<lparr>data := map f (data t)\<rparr>"

text \<open>
  \<open>torch.linspace(start, end, steps)\<close>: a negative number of steps raises, one step gives
  \<open>start\<close> alone, and \<open>steps\<close> values are \<open>start + i * (end - start) / (steps - 1)\<close>.
\<close>

definition linspace :: "real \<Rightarrow> real \<Rightarrow> int \<Rightarrow> exn + fval list" where
  "linspace start stop steps =
     (if steps < 0 then Inl RuntimeError
      else Inr (map (\<lambda>i. Fin (if steps = 1 then start
                                else start + real i * (stop - start) / real_of_int (steps - 1)))
                    [0..<nat steps]))"

text \<open>The rows of \<open>torch.stack((x, y, z), dim=-1)\<close>, where \<open>z = torch.full_like(x, depth)\<close>:
  row \<open>i\<close> is the field point \<open>[x[i], y[i], depth]\<close>.\<close>

definition field_points :: "fval list \<Rightarrow> fval list \<Rightarrow> fval \<Rightarrow> tensor list" where
  "field_points x y depth =
     map (\<lambda>i. \<lparr>shape = [3], data = [x ! i, y ! i, depth]\<rparr>) [0..<length x]"

section \<open>The external lens and image library\<close>

text \<open>
  The lens object is a parameter: \<open>lens points ks recenter spp\<close> is what
  \<open>lens.psf_rgb(points=..., ks=..., recenter=..., spp=...)\<close> returns or raises. Only
  subclasses of \<open>Exception\<close> are values of \<open>exn\<close>; an interrupt of the interpreter is not
  modelled. \<open>EPSILON\<close> of the lens library is the parameter \<open>eps\<close>.
\<close>

type_synonym lens = "tensor \<Rightarrow> int \<Rightarrow> bool \<Rightarrow> nat \<Rightarrow> exn + tensor"

text \<open>
  \<open>make_grid\<close> of the image library first stacks the list of images, which raises
  \<open>RuntimeError\<close> on an empty list and on images of different shapes. The pixels of the
  tiling are not computed: a grid is the images with the layout arguments of the call.
  \<open>save_image\<close> stores the grid under the file name, with its \<open>normalize\<close> argument.
\<close>

record grid =
  tiles :: "tensor list"
  nrow :: int
  padding :: nat
  pad_value :: fval

record image_file =
  saved_grid :: grid
  saved_normalize :: bool

record plot_world =
  images :: "string \<rightharpoonup> image_file"
  printed :: "string list"

definition make_grid :: "tensor list \<Rightarrow> int \<Rightarrow> nat \<Rightarrow> fval \<Rightarrow> exn + grid" where
  "make_grid psfs n pad pv =
     (case psfs of
        [] \<Rightarrow> Inl RuntimeError
      | t # ts \<Rightarrow> if \<forall>u\<in>set ts. shape u = shape t
                  then Inr \<lparr>tiles = psfs, nrow = n, padding = pad, pad_value = pv\<rparr>
                  else Inl RuntimeError)"

definition save_image :: "grid \<Rightarrow> string \<Rightarrow> bool \<Rightarrow> plot_world \<Rightarrow> plot_world" where
  "save_image g name nrm w =
     w\<lparr>images := (images w)(name \<mapsto> \<lparr>saved_grid = g, saved_normalize = nrm\<rparr>)\<rparr>"

section \<open>fix_psf_radial.py\<close>

text \<open>The two statements of the \<open>log_scale\<close> branch.\<close>

definition log_scale_step :: "real \<Rightarrow> tensor \<Rightarrow> exn + tensor" where
  "log_scale_step eps psf0 =
     (let psf = tmap (\<lambda>x. flog (fadd x (Fin eps))) psf0
      in ebind (tmin psf) (\<lambda>mn.
         let numerator = tmap (\<lambda>x. fsub x mn) psf
         in ebind (tmax psf) (\<lambda>mx.
            ebind (tmin psf) (\<lambda>mn'.
            Inr (tmap (\<lambda>x. fdiv x (fsub mx mn')) numerator)))))"

text \<open>What both plotters do with the PSF of one field point: \<open>psf /= psf.max()\<close>, then the
  \<open>log_scale\<close> branch.\<close>

definition normalize_psf :: "real \<Rightarrow> bool \<Rightarrow> tensor \<Rightarrow> exn + tensor" where
  "normalize_psf eps log_scale psf0 =
     ebind (tmax psf0) (\<lambda>m.
       let psf = tmap (\<lambda>x. fdiv x m) psf0
       in if log_scale then log_scale_step eps psf else Inr psf)"

text \<open>The loop \<open>for i in range(M)\<close> of the strict plotter over the rows of \<open>points\<close>; the
  first exception ends it.\<close>

fun fixed_loop :: "lens \<Rightarrow> int \<Rightarrow> real \<Rightarrow> bool \<Rightarrow> tensor list \<Rightarrow> exn + tensor list" where
  "fixed_loop lens ks eps log_scale [] = Inr []"
| "fixed_loop lens ks eps log_scale (p # ps) =
     ebind (lens p ks True 4096) (\<lambda>psf0.
     ebind (normalize_psf eps log_scale psf0) (\<lambda>psf.
     ebind (fixed_loop lens ks eps log_scale ps) (\<lambda>psfs.
     Inr (psf # psfs))))"

definition fixed_psf_radial ::
  "real \<Rightarrow> lens \<Rightarrow> int \<Rightarrow> fval \<Rightarrow> int \<Rightarrow> bool \<Rightarrow> string \<Rightarrow> plot_world
     \<Rightarrow> (exn + string) \<times> plot_world" where
  "fixed_psf_radial eps lens M depth ks log_scale save_name w =
     (case ebind (linspace 0 1 M) (\<lambda>x.
           ebind (linspace 0 1 M) (\<lambda>y.
           ebind (fixed_loop lens ks eps log_scale (field_points x y depth)) (\<lambda>psfs.
           make_grid psfs M 1 (Fin 0)))) of
        Inl e \<Rightarrow> (Inl e, w)
      | Inr psf_grid \<Rightarrow>
          (Inr save_name,
           (save_image psf_grid save_name True w)
             \<lparr>printed := printed w @ [''PSF radial has been saved to '' @ save_name]\<rparr>))"


section \<open>fix_psf_radial_robust.py\<close>

text \<open>Python's \<open>str\<close> of a natural number, as the f-strings print the loop index.\<close>

definition digit_chars :: string where
  "digit_chars = ''0123456789''"

function str_nat :: "nat \<Rightarrow> string" where
  "str_nat n = (if 10 \<le> n then str_nat (n div 10) else []) @ [digit_chars ! (n mod 10)]"
  by pat_completeness auto
termination
  by (relation "measure (\<lambda>n. n)") auto

declare str_nat.simps [simp del]

text \<open>
  The placeholder of the innermost handler. \<open>torch.arange(ks)\<close> raises on a negative
  \<open>ks\<close>. With \<open>indexing='xy'\<close> the element in row \<open>r\<close> and column \<open>c\<close> of \<open>x_grid\<close> is
  \<open>c\<close> and that of \<open>y_grid\<close> is \<open>r\<close>. \<open>gaussian_2d\<close> is the variable \<open>gaussian\<close> after
  the division by its sum, and \<open>stack3\<close> is \<open>torch.stack\<close> of three tensors of one shape
  along a new first dimension.
\<close>

definition gaussian_raw :: "nat \<Rightarrow> int \<Rightarrow> tensor" where
  "gaussian_raw i ks =
     (let sigma = 2.0 + real i * 1.5;
          center = ks div 2
      in \<lparr>shape = [nat ks, nat ks],
          data = concat (map (\<lambda>r. map (\<lambda>c.
                   Fin (exp (- real_of_int ((int c - center)\<^sup>2 + (int r - center)\<^sup>2)
                             / (2 * sigma\<^sup>2))))
                   [0..<nat ks]) [0..<nat ks])\<rparr>)"

definition gaussian_2d :: "nat \<Rightarrow> int \<Rightarrow> exn + tensor" where
  "gaussian_2d i ks =
     (if ks < 0 then Inl RuntimeError
      else let gaussian = gaussian_raw i ks
           in Inr (tmap (\<lambda>x. fdiv x (tsum gaussian)) gaussian))"

definition stack3 :: "tensor \<Rightarrow> tensor \<Rightarrow> tensor \<Rightarrow> tensor" where
  "stack3 a b c = \<lparr>shape = 3 # shape a, data = data a @ data b @ data c\<rparr>"

definition gaussian_placeholder :: "nat \<Rightarrow> int \<Rightarrow> exn + tensor" where
  "gaussian_placeholder i ks =
     ebind (gaussian_2d i ks) (\<lambda>gaussian. Inr (stack3 gaussian gaussian gaussian))"

text \<open>
  The \<open>try\<close> statement of one field point, with the lines it prints. \<open>except
  AssertionError\<close> handles the validity failure only; \<open>except Exception\<close> handles every
  exception of the retry.
\<close>

definition robust_psf :: "lens \<Rightarrow> tensor \<Rightarrow> nat \<Rightarrow> int \<Rightarrow> (exn + tensor) \<times> string list" where
  "robust_psf lens p i ks =
     (case lens p ks True 4096 of
        Inr psf \<Rightarrow> (Inr psf, [])
      | Inl e \<Rightarrow>
          if e = AssertionError
          then (let out1 = [''Trying without recentering for field point '' @ str_nat i]
                in case lens p ks False 4096 of
                     Inr psf \<Rightarrow> (Inr psf, out1)
                   | Inl e' \<Rightarrow>
                       (gaussian_placeholder i ks,
                        out1 @ [''Creating placeholder Gaussian PSF for field point ''
                                  @ str_nat i]))
          else (Inl e, []))"

fun robust_loop ::
  "lens \<Rightarrow> int \<Rightarrow> real \<Rightarrow> bool \<Rightarrow> tensor list \<Rightarrow> nat list \<Rightarrow> (exn + tensor list) \<times> string list"
where
  "robust_loop lens ks eps log_scale points [] = (Inr [], [])"
| "robust_loop lens ks eps log_scale points (i # is) =
     (case robust_psf lens (points ! i) i ks of
        (Inl e, out) \<Rightarrow> (Inl e, out)
      | (Inr psf0, out) \<Rightarrow>
          (case normalize_psf eps log_scale psf0 of
             Inl e \<Rightarrow> (Inl e, out)
           | Inr psf \<Rightarrow>
               (case robust_loop lens ks eps log_scale points is of
                  (Inl e, out') \<Rightarrow> (Inl e, out @ out')
                | (Inr psfs, out') \<Rightarrow> (Inr (psf # psfs), out @ out'))))"

definition robust_psf_radial ::
  "real \<Rightarrow> lens \<Rightarrow> int \<Rightarrow> fval \<Rightarrow> int \<Rightarrow> bool \<Rightarrow> string \<Rightarrow> plot_world
     \<Rightarrow> (exn + string) \<times> plot_world" where
  "robust_psf_radial eps lens M depth ks log_scale save_name w =
     (case ebind (linspace 0 0.7 M) (\<lambda>x. ebind (linspace 0 0.7 M) (\<lambda>y. Inr (x, y))) of
        Inl e \<Rightarrow> (Inl e, w)
      | Inr (x, y) \<Rightarrow>
          (case robust_loop lens ks eps log_scale (field_points x y depth) [0..<nat M] of
             (Inl e, out) \<Rightarrow> (Inl e, w\<lparr>printed := printed w @ out\<rparr>)
           | (Inr psfs, out) \<Rightarrow>
               (case make_grid psfs M 1 (Fin 0) of
                  Inl e \<Rightarrow> (Inl e, w\<lparr>printed := printed w @ out\<rparr>)
                | Inr psf_grid \<Rightarrow>
                    (Inr save_name,
                     (save_image psf_grid save_name True w)
                       \<lparr>printed := printed w @ out
                          @ [''PSF radial has been saved to '' @ save_name]\<rparr>))))"

text \<open>
  The coordinate \<open>i\<close> of \<open>torch.linspace(0, stop, M)\<close> and the field point \<open>i\<close> built from
  it, as lemma \<open>linspace_from_zero\<close> and lemma \<open>field_points_eq\<close> show.
\<close>

definition field_coord :: "real \<Rightarrow> int \<Rightarrow> nat \<Rightarrow> real" where
  "field_coord stop M i = (if M = 1 then 0 else real i * stop / real_of_int (M - 1))"

definition field_point :: "real \<Rightarrow> int \<Rightarrow> fval \<Rightarrow> nat \<Rightarrow> tensor" where
  "field_point stop M depth i =
     \<lparr>shape = [3], data = [Fin (field_coord stop M i), Fin (field_coord stop M i), depth]\<rparr>"

text \<open>Concrete PSFs (two pixels; a constant PSF), lens stubs that always return one PSF
  or always raise one exception, and the world before a plot.\<close>

definition two_pixels :: tensor where
  "two_pixels = \<lparr>shape = [2], data = [Fin 1, Fin 0]\<rparr>"

definition flat_psf :: tensor where
  "flat_psf = \<lparr>shape = [2], data = [Fin 1, Fin 1]\<rparr>"

definition const_lens :: "tensor \<Rightarrow> lens" where
  "const_lens psf = (\<lambda>p ks recenter spp. Inr psf)"

definition failing_lens :: "exn \<Rightarrow> lens" where
  "failing_lens e = (\<lambda>p ks recenter spp. Inl e)"

definition world0 :: plot_world where
  "world0 = \<lparr>images = Map.empty, printed = []\<rparr>"


text \<open>The value of the unnormalized Gaussian in row \<open>r\<close> and column \<open>c\<close>, and all of them
  in row-major order (lemma \<open>gaussian_raw_data\<close>).\<close>

definition gauss_value :: "nat \<Rightarrow> int \<Rightarrow> nat \<Rightarrow> nat \<Rightarrow> real" where
  "gauss_value i ks r c =
     exp (- real_of_int ((int c - ks div 2)\<^sup>2 + (int r - ks div 2)\<^sup>2)
          / (2 * (2.0 + real i * 1.5)\<^sup>2))"

definition gauss_values :: "nat \<Rightarrow> int \<Rightarrow> real list" where
  "gauss_values i ks =
     concat (map (\<lambda>r. map (\<lambda>c. gauss_value i ks r c) [0..<nat ks]) [0..<nat ks])"

text \<open>
  The normalized Gaussian of the placeholder for a positive kernel size (lemma
  \<open>gaussian_placeholder_eq\<close>), and the placeholder after the division by its maximum
  (lemma \<open>normalize_placeholder\<close>).
\<close>

definition gaussian_norm :: "nat \<Rightarrow> int \<Rightarrow> tensor" where
  "gaussian_norm i ks =
     \<lparr>shape = [nat ks, nat ks],
      data = map (\<lambda>v. Fin (v / sum_list (gauss_values i ks))) (gauss_values i ks)\<rparr>"

definition placeholder_tile :: "nat \<Rightarrow> int \<Rightarrow> tensor" where
  "placeholder_tile i ks =
     \<lparr>shape = [3, nat ks, nat ks],
      data = map Fin (gauss_values i ks @ gauss_values i ks @ gauss_values i ks)\<rparr>"


text \<open>A lens stub that fails validity with recentering only, and the placeholder of one
  pixel.\<close>

definition retry_lens :: "tensor \<Rightarrow> lens" where
  "retry_lens psf = (\<lambda>p ks recenter spp. if recenter then Inl AssertionError else Inr psf)"

definition one_pixel_rgb :: tensor where
  "one_pixel_rgb = \<lparr>shape = [3, 1, 1], data = [Fin 1, Fin 1, Fin 1]\<rparr>"


section \<open>Properties of safe_denormalize\<close>

lemma three_channels:
  assumes "4 \<le> tensor_dim t" "3 \<le> shape t ! 1"
  shows "ebind (set_channel (zeros_like t) 0 a) (\<lambda>m1.
         ebind (set_channel m1 1 b) (\<lambda>m2.
         ebind (set_channel m2 2 c) f)) = f (chan3 t a b c)"
proof -
  let ?m1 = "\<lparr>shape = shape t,
              data = map (\<lambda>k. if channel_of (shape t) k = 0 then a else Fin 0)
                         [0..<prod_list (shape t)]\<rparr>"
  let ?m2 = "\<lparr>shape = shape t,
              data = map (\<lambda>k. if channel_of (shape t) k = 1 then b
                               else if channel_of (shape t) k = 0 then a else Fin 0)
                         [0..<prod_list (shape t)]\<rparr>"
  have 1: "set_channel (zeros_like t) 0 a = Inr ?m1"
    using assms by (simp add: set_channel_def zeros_like_def tensor_dim_def)
  have 2: "set_channel ?m1 1 b = Inr ?m2"
    using assms by (simp add: set_channel_def tensor_dim_def)
  have 3: "set_channel ?m2 2 c = Inr (chan3 t a b c)"
    using assms by (simp add: set_channel_def tensor_dim_def chan3_def)
  show ?thesis by (simp only: ebind_def 1 2 3 sum.case)
qed

text \<open>With at least four dimensions after the optional unsqueeze and at least three
  channels, no assignment raises and the result is \<open>tensor * std + mean\<close>.\<close>

lemma safe_denormalize_ok:
  assumes "t' = (if tensor_dim t = 3 then unsqueeze0 t else t)"
    and "4 \<le> tensor_dim t'" and "3 \<le> shape t' ! 1"
  shows "safe_denormalize t =
           Inr (let r = tadd (tmul t' (chan3 t' (Fin 0.229) (Fin 0.224) (Fin 0.225)))
                             (chan3 t' (Fin 0.485) (Fin 0.456) (Fin 0.406))
                in if tensor_dim t = 3 then squeeze0 r else r)"
  unfolding safe_denormalize_def Let_def assms(1)[symmetric]
  by (subst three_channels[OF assms(2,3)], subst three_channels[OF assms(2,3)]) simp

text \<open>With fewer dimensions or fewer than three channels an index assignment raises.\<close>

lemma safe_denormalize_raises:
  assumes "t' = (if tensor_dim t = 3 then unsqueeze0 t else t)"
    and "tensor_dim t' < 4 \<or> shape t' ! 1 < 3"
  shows "safe_denormalize t = Inl IndexError"
  unfolding safe_denormalize_def Let_def assms(1)[symmetric]
  using assms(2)
  by (auto simp add: ebind_def set_channel_def zeros_like_def tensor_dim_def
           split: sum.splits if_splits)

lemma flat_index_bound:
  assumes "b < B" "c < C" "h < H" "w < (W::nat)"
  shows "((b * C + c) * H + h) * W + w < B * C * H * W"
proof -
  have 1: "b * C + c < B * C"
  proof -
    have "b * C + c < b * C + C" using assms by simp
    also have "\<dots> = (Suc b) * C" by simp
    also have "\<dots> \<le> B * C" using assms(1) by (intro mult_le_mono1) simp
    finally show ?thesis .
  qed
  have 2: "(b * C + c) * H + h < B * C * H"
  proof -
    have "(b * C + c) * H + h < (b * C + c) * H + H" using assms by simp
    also have "\<dots> = Suc (b * C + c) * H" by simp
    also have "\<dots> \<le> (B * C) * H" using 1 by (intro mult_le_mono1) simp
    finally show ?thesis .
  qed
  have "((b * C + c) * H + h) * W + w < ((b * C + c) * H + h) * W + W" using assms by simp
  also have "\<dots> = Suc ((b * C + c) * H + h) * W" by simp
  also have "\<dots> \<le> (B * C * H) * W" using 2 by (intro mult_le_mono1) simp
  finally show ?thesis .
qed

lemma div_mult_add_less: "r < n \<Longrightarrow> ((a::nat) * n + r) div n = a"
  by simp

lemma channel_of_flat:
  assumes "c < C" "h < H" "w < (W::nat)"
  shows "channel_of [B, C, H, W] (((b * C + c) * H + h) * W + w) = c"
proof -
  have hw: "h * W + w < H * W"
  proof -
    have "h * W + w < h * W + W" using assms by simp
    also have "\<dots> = Suc h * W" by simp
    also have "\<dots> \<le> H * W" using assms(2) by (intro mult_le_mono1) simp
    finally show ?thesis .
  qed
  have eq: "((b * C + c) * H + h) * W + w = (b * C + c) * (H * W) + (h * W + w)"
    by (simp add: algebra_simps)
  have "(((b * C + c) * H + h) * W + w) div (H * W) = b * C + c"
    unfolding eq by (rule div_mult_add_less[OF hw])
  then show ?thesis using assms(1) by (simp add: channel_of_def)
qed

lemma fmul_zero_fadd_zero:
  "fadd (fmul x (Fin 0)) (Fin 0) = (if is_finite x then Fin 0 else NaN)"
  by (cases x) simp_all

lemma chan3_nth:
  "k < prod_list (shape t) \<Longrightarrow> data (chan3 t x y z) ! k =
    (if channel_of (shape t) k = 2 then z else if channel_of (shape t) k = 1 then y
     else if channel_of (shape t) k = 0 then x else Fin 0)"
  by (simp add: chan3_def)

text \<open>
  Claim C5. For every image tensor of rank 3 (sizes \<open>[c, h, w]\<close> with the three colour
  channels, or more) \<open>safe_denormalize\<close> returns a tensor of rank 3 with the shape of its
  input, and for every such tensor of rank 4 (sizes \<open>[b, c, h, w]\<close>) a tensor of rank 4
  with the shape of its input.
\<close>

theorem safe_denormalize_shape:
  "(shape t = [c, h, w] \<and> 3 \<le> c \<longrightarrow>
      (\<exists>r. safe_denormalize t = Inr r \<and> tensor_dim r = 3 \<and> shape r = shape t))
   \<and> (shape u = [b, c', h', w'] \<and> 3 \<le> c' \<longrightarrow>
      (\<exists>r. safe_denormalize u = Inr r \<and> tensor_dim r = 4 \<and> shape r = shape u))"
proof (intro conjI impI)
  assume a: "shape t = [c, h, w] \<and> 3 \<le> c"
  show "\<exists>r. safe_denormalize t = Inr r \<and> tensor_dim r = 3 \<and> shape r = shape t"
    using a by (subst safe_denormalize_ok[OF refl])
      (simp_all add: tensor_dim_def unsqueeze0_def squeeze0_def tadd_def tmul_def)
next
  assume a: "shape u = [b, c', h', w'] \<and> 3 \<le> c'"
  show "\<exists>r. safe_denormalize u = Inr r \<and> tensor_dim r = 4 \<and> shape r = shape u"
    using a by (subst safe_denormalize_ok[OF refl])
      (simp_all add: tensor_dim_def unsqueeze0_def squeeze0_def tadd_def tmul_def)
qed

theorem safe_denormalize_shape_witness:
  "shape rgb_pixel = [3, 1, 1] \<and> shape rgb_batch = [1, 3, 1, 1]
   \<and> (case safe_denormalize rgb_pixel of Inl e \<Rightarrow> False
       | Inr r \<Rightarrow> tensor_dim r = 3 \<and> shape r = [3, 1, 1])
   \<and> (case safe_denormalize rgb_batch of Inl e \<Rightarrow> False
       | Inr r \<Rightarrow> tensor_dim r = 4 \<and> shape r = [1, 3, 1, 1])"
proof -
  have s: "shape rgb_pixel = [3, 1, 1]" "shape rgb_batch = [1, 3, 1, 1]"
    by (simp_all add: rgb_pixel_def rgb_batch_def)
  show ?thesis
    using safe_denormalize_shape[of rgb_pixel 3 1 1 rgb_batch 1 3 1 1] s by auto
qed

text \<open>
  Claim C7. For every rank-3 tensor \<open>t\<close>, \<open>safe_denormalize t\<close> is
  \<open>safe_denormalize\<close> of \<open>t\<close> with a batch dimension of size 1 added, with that
  dimension removed again (and the same exception where the latter raises).
\<close>

theorem safe_denormalize_batch_of_one:
  "tensor_dim t = 3 \<Longrightarrow>
   safe_denormalize t =
     (case safe_denormalize (unsqueeze0 t) of Inl e \<Rightarrow> Inl e | Inr r \<Rightarrow> Inr (squeeze0 r))"
proof -
  assume d: "tensor_dim t = 3"
  have d4: "tensor_dim (unsqueeze0 t) = 4"
    using d by (simp add: tensor_dim_def unsqueeze0_def)
  show ?thesis
  proof (cases "3 \<le> shape (unsqueeze0 t) ! 1")
    case True
    show ?thesis using d d4 True
      by (simp add: safe_denormalize_ok[of "unsqueeze0 t" t]
                    safe_denormalize_ok[of "unsqueeze0 t" "unsqueeze0 t"] Let_def)
  next
    case False
    show ?thesis using d d4 False
      by (simp add: safe_denormalize_raises[of "unsqueeze0 t" t]
                    safe_denormalize_raises[of "unsqueeze0 t" "unsqueeze0 t"])
  qed
qed

theorem safe_denormalize_batch_of_one_witness:
  "tensor_dim rgb_pixel = 3 \<and> unsqueeze0 rgb_pixel = rgb_batch
   \<and> safe_denormalize rgb_pixel =
       (case safe_denormalize rgb_batch of Inl e \<Rightarrow> Inl e | Inr r \<Rightarrow> Inr (squeeze0 r))
   \<and> safe_denormalize rgb_pixel =
       Inr \<lparr>shape = [3, 1, 1], data = [Fin 0.714, Fin 0.456, Fin 0.181]\<rparr>"
proof -
  have d: "tensor_dim rgb_pixel = 3" by (simp add: tensor_dim_def rgb_pixel_def)
  have u: "unsqueeze0 rgb_pixel = rgb_batch"
    by (simp add: unsqueeze0_def rgb_pixel_def rgb_batch_def)
  have v: "safe_denormalize rgb_pixel =
       Inr \<lparr>shape = [3, 1, 1], data = [Fin 0.714, Fin 0.456, Fin 0.181]\<rparr>"
    by code_simp
  show ?thesis
    using safe_denormalize_batch_of_one[OF d] d u v by simp
qed

text \<open>
  Claim C10, as the code has it. For every well-formed rank-4 tensor with more than three
  channels \<open>safe_denormalize\<close> returns a tensor whose element in a channel of index 3 or
  more is zero where the input element is finite, and NaN where the input element is an
  infinity or NaN: \<open>std\<close> and \<open>mean\<close> are zero on these channels, and the element is
  \<open>x * 0 + 0\<close>.
\<close>

theorem safe_denormalize_extra_channels:
  assumes "wf_tensor t" "shape t = [B, C, H, W]" "3 < C"
    and "b < B" "3 \<le> c" "c < C" "h < H" "w < W"
  shows "\<exists>r. safe_denormalize t = Inr r \<and>
           get4 r b c h w = (if is_finite (get4 t b c h w) then Fin 0 else NaN)"
proof -
  let ?k = "((b * C + c) * H + h) * W + w"
  let ?std = "chan3 t (Fin 0.229) (Fin 0.224) (Fin 0.225)"
  let ?mean = "chan3 t (Fin 0.485) (Fin 0.456) (Fin 0.406)"
  let ?r = "tadd (tmul t ?std) ?mean"
  have sd: "safe_denormalize t = Inr ?r"
    using assms(2,3) by (subst safe_denormalize_ok[OF refl]) (simp_all add: tensor_dim_def)
  have k: "?k < B * C * H * W" using assms by (intro flat_index_bound)
  have len: "length (data t) = B * C * H * W" using assms(1,2) by (simp add: wf_tensor_def)
  have ch: "channel_of (shape t) ?k = c" using assms by (simp add: channel_of_flat)
  have kp: "?k < prod_list (shape t)" using k assms(2) by simp
  have s: "data ?std ! ?k = Fin 0" using assms(5) by (simp only: chan3_nth[OF kp] ch) simp
  have m: "data ?mean ! ?k = Fin 0" using assms(5) by (simp only: chan3_nth[OF kp] ch) simp
  have ls: "length (data ?std) = B * C * H * W" "length (data ?mean) = B * C * H * W"
    using assms(2) by (simp_all add: chan3_def)
  have "data ?r ! ?k = fadd (fmul (data t ! ?k) (data ?std ! ?k)) (data ?mean ! ?k)"
    using k len ls by (simp add: tadd_def tmul_def)
  then have "data ?r ! ?k = (if is_finite (data t ! ?k) then Fin 0 else NaN)"
    by (simp only: s m fmul_zero_fadd_zero)
  moreover have "shape ?r = shape t" by (simp add: tadd_def tmul_def)
  ultimately have "get4 ?r b c h w = (if is_finite (get4 t b c h w) then Fin 0 else NaN)"
    using assms(2) by (simp add: get4_def)
  with sd show ?thesis by blast
qed

theorem safe_denormalize_extra_channels_witness:
  "wf_tensor rgba_pixel \<and> shape rgba_pixel = [1, 4, 1, 1] \<and> is_finite (get4 rgba_pixel 0 3 0 0)
   \<and> (case safe_denormalize rgba_pixel of Inl e \<Rightarrow> False | Inr r \<Rightarrow> get4 r 0 3 0 0 = Fin 0)"
proof -
  have w: "wf_tensor rgba_pixel" by (simp add: wf_tensor_def rgba_pixel_def)
  have s: "shape rgba_pixel = [1, 4, 1, 1]" by (simp add: rgba_pixel_def)
  have f: "is_finite (get4 rgba_pixel 0 3 0 0)" by (simp add: get4_def rgba_pixel_def)
  show ?thesis
    using safe_denormalize_extra_channels[OF w s, of 0 3 0 0] w s f by auto
qed

text \<open>
  The claim as the specification words it (every channel of index 3 or more identically
  zero, for every rank-4 tensor) fails on a tensor whose fourth channel holds NaN:
  \<open>NaN * 0 + 0\<close> is NaN.
\<close>

theorem safe_denormalize_extra_channels_counterexample:
  "wf_tensor nan_tensor \<and> tensor_dim nan_tensor = 4 \<and> 3 < shape nan_tensor ! 1
   \<and> safe_denormalize nan_tensor
       = Inr \<lparr>shape = [1, 4, 1, 1], data = [Fin 0.485, Fin 0.456, Fin 0.406, NaN]\<rparr>
   \<and> get4 \<lparr>shape = [1, 4, 1, 1], data = [Fin 0.485, Fin 0.456, Fin 0.406, NaN]\<rparr> 0 3 0 0
       = NaN
   \<and> NaN \<noteq> Fin 0"
  by code_simp

section \<open>Properties of the notebook patcher\<close>

lemma patch_loop_step:
  "a < length heap \<Longrightarrow>
   patch_loop (a # as) heap m = patch_loop as (heap[a := patch_cell (heap ! a)]) (m @ [a])"
  by (simp add: patch_cell_def is_train_cell_def Let_def)

lemma patch_loop_heap:
  "distinct as \<Longrightarrow> \<forall>a\<in>set as. a < length heap \<Longrightarrow>
   fst (patch_loop as heap m) =
     map (\<lambda>j. if j \<in> set as then patch_cell (heap ! j) else heap ! j) [0..<length heap]"
proof (induction as arbitrary: heap m)
  case Nil
  then show ?case by (simp add: map_nth)
next
  case (Cons a as)
  have a: "a < length heap" "a \<notin> set as" using Cons.prems by auto
  let ?h = "heap[a := patch_cell (heap ! a)]"
  have "fst (patch_loop (a # as) heap m) = fst (patch_loop as ?h (m @ [a]))"
    by (simp only: patch_loop_step[OF a(1)])
  also have "\<dots> = map (\<lambda>j. if j \<in> set as then patch_cell (?h ! j) else ?h ! j) [0..<length ?h]"
    using Cons.prems by (intro Cons.IH) auto
  also have "\<dots> = map (\<lambda>j. if j \<in> set (a # as) then patch_cell (heap ! j) else heap ! j)
                       [0..<length heap]"
    using a by (auto simp: nth_list_update)
  finally show ?case .
qed

lemma patch_loop_all:
  "fst (patch_loop [0..<length cs] (cs @ extra) m) = map patch_cell cs @ extra"
proof -
  have "fst (patch_loop [0..<length cs] (cs @ extra) m) =
        map (\<lambda>j. if j \<in> set [0..<length cs] then patch_cell ((cs @ extra) ! j) else (cs @ extra) ! j)
            [0..<length (cs @ extra)]"
    by (intro patch_loop_heap) auto
  also have "\<dots> = map patch_cell cs @ extra"
    by (rule nth_equalityI) (auto simp: nth_append)
  finally show ?thesis .
qed

lemma backup_path_neq: "backup_path \<noteq> NOTEBOOK_PATH"
  by (simp add: backup_path_def)

lemma fix_notebook_nonempty:
  assumes "files w NOTEBOOK_PATH = Some nb" and "cells nb = c # cs"
  shows "fix_notebook w =
    (Inr (),
     w\<lparr>files := (files w)(backup_path \<mapsto> nb,
                  NOTEBOOK_PATH \<mapsto> nb\<lparr>cells := patch_cell c # import_cell # dataset_path_cell
                                                  # map patch_cell cs\<rparr>),
       stdout := stdout w @ [''Created backup at '' @ backup_path] @ final_prints\<rparr>)"
proof -
  let ?n = "length (cells nb)"
  let ?h = "map patch_cell (cells nb) @ [import_cell, dataset_path_cell]"
  have pos: "0 < ?n" using assms(2) by simp
  have refs: "[0..<?n] = 0 # [1..<?n]"
    using upt_conv_Cons[OF pos] by (simp only: One_nat_def)
  have loop: "patch_loop [0..<?n] (cells nb @ [import_cell, dataset_path_cell]) []
               = (?h, snd (patch_loop [0..<?n] (cells nb @ [import_cell, dataset_path_cell]) []))"
    using patch_loop_all[of "cells nb" "[import_cell, dataset_path_cell]" "[]"]
    by (metis prod.collapse)
  have id: "map ((!) (cells nb)) [0..<?n] = cells nb" by (rule map_nth)
  have h0: "?h ! 0 = patch_cell c" using assms(2) by simp
  have hn: "?h ! ?n = import_cell" by (simp add: nth_append)
  have hn1: "?h ! Suc ?n = dataset_path_cell" by (simp add: nth_append)
  have rest: "map ((!) ?h) [1..<?n] = map patch_cell cs"
  proof -
    have "[1..<?n] = map Suc [0..<length cs]"
      using assms(2) by (simp add: map_Suc_upt)
    then have "map ((!) ?h) [1..<?n] =
               map (\<lambda>i. (map patch_cell cs @ [import_cell, dataset_path_cell]) ! i) [0..<length cs]"
      using assms(2) by simp
    also have "\<dots> = map patch_cell cs"
      by (rule nth_equalityI) (auto simp: nth_append)
    finally show ?thesis .
  qed
  have new: "map ((!) ?h) ([0] @ [?n, Suc ?n] @ [1..<?n])
             = patch_cell c # import_cell # dataset_path_cell # map patch_cell cs"
    using h0 hn hn1 rest by simp
  have nbid: "nb\<lparr>cells := cells nb\<rparr> = nb" by simp
  show ?thesis
    unfolding fix_notebook_def Let_def assms(1) option.case id nbid
    apply (subst loop)
    apply (subst refs)
    apply (simp only: prod.case list.case new)
    apply simp
    done
qed

lemma fix_notebook_empty:
  assumes "files w NOTEBOOK_PATH = Some nb" and "cells nb = []"
  shows "fix_notebook w =
    (Inl IndexError,
     w\<lparr>files := (files w)(backup_path \<mapsto> nb),
       stdout := stdout w @ [''Created backup at '' @ backup_path]\<rparr>)"
proof -
  have nbid: "nb\<lparr>cells := []\<rparr> = nb" using assms(2) by (cases nb) simp
  show ?thesis
    unfolding fix_notebook_def Let_def assms(1) option.case
    by (simp add: assms(2) nbid)
qed


lemma replace_str_absent: "\<not> sublist old s \<Longrightarrow> replace_str old new s = s"
proof (induction s)
  case Nil
  then show ?case by (subst replace_str.simps) auto
next
  case (Cons c cs)
  then show ?case by (subst replace_str.simps) (auto simp: sublist_Cons_right)
qed

lemma patch_cell_train: "patch_cell train_cell = patched_train_cell"
  by code_simp

lemma patch_cell_markdown: "patch_cell markdown_cell = markdown_cell"
  by code_simp

text \<open>
  Claim C2, as the code has it. For every notebook document with at least one cell, the
  patcher returns normally, the backup file holds the document as it was read, and the
  rewritten document has exactly 2 more cells than the original; its cell at position 0 is
  the first original cell after the training-cell rewrite, which is the first original cell
  itself when that cell is not a code cell containing the training-function definition.
\<close>

theorem fix_notebook_backup_and_cells:
  assumes "files w NOTEBOOK_PATH = Some nb" and "cells nb \<noteq> []"
  shows "fst (fix_notebook w) = Inr ()
     \<and> files (snd (fix_notebook w)) backup_path = Some nb
     \<and> (\<exists>nb'. files (snd (fix_notebook w)) NOTEBOOK_PATH = Some nb'
            \<and> length (cells nb') = length (cells nb) + 2
            \<and> cells nb' ! 0 = patch_cell (cells nb ! 0)
            \<and> (\<not> is_train_cell (cells nb ! 0) \<longrightarrow> cells nb' ! 0 = cells nb ! 0))"
proof -
  obtain c cs where cs: "cells nb = c # cs" using assms(2) by (cases "cells nb") auto
  show ?thesis
    by (simp add: fix_notebook_nonempty[OF assms(1) cs] cs backup_path_neq patch_cell_def)
qed

theorem fix_notebook_backup_and_cells_witness:
  "files (world_of [markdown_cell, train_cell]) NOTEBOOK_PATH
     = Some \<lparr>cells = [markdown_cell, train_cell], nb_rest = []\<rparr>
   \<and> fst (fix_notebook (world_of [markdown_cell, train_cell])) = Inr ()
   \<and> files (snd (fix_notebook (world_of [markdown_cell, train_cell]))) backup_path
       = Some \<lparr>cells = [markdown_cell, train_cell], nb_rest = []\<rparr>
   \<and> \<not> is_train_cell markdown_cell"
proof -
  have f: "files (world_of [markdown_cell, train_cell]) NOTEBOOK_PATH
     = Some \<lparr>cells = [markdown_cell, train_cell], nb_rest = []\<rparr>"
    by (simp add: world_of_def)
  have n: "cells \<lparr>cells = [markdown_cell, train_cell], nb_rest = []\<rparr> \<noteq> []" by simp
  have m: "\<not> is_train_cell markdown_cell" by code_simp
  show ?thesis
    using fix_notebook_backup_and_cells[OF f n] f m by simp
qed

text \<open>
  The claim as the specification words it fails on a notebook whose first cell is the
  training cell (position 0 then holds the rewritten cell) and on a notebook without cells
  (the backup is written, then \<open>IndexError\<close> is raised and the notebook is not rewritten).
\<close>

theorem fix_notebook_first_cell_counterexample:
  "files (snd (fix_notebook (world_of [train_cell]))) NOTEBOOK_PATH
     = Some \<lparr>cells = [patched_train_cell, import_cell, dataset_path_cell], nb_rest = []\<rparr>
   \<and> patched_train_cell \<noteq> train_cell
   \<and> fix_notebook (world_of [])
       = (Inl IndexError,
          \<lparr>files = [NOTEBOOK_PATH \<mapsto> \<lparr>cells = [], nb_rest = []\<rparr>,
                    backup_path \<mapsto> \<lparr>cells = [], nb_rest = []\<rparr>],
           stdout = [''Created backup at '' @ backup_path]\<rparr>)"
proof -
  have f: "files (world_of [train_cell]) NOTEBOOK_PATH = Some \<lparr>cells = [train_cell], nb_rest = []\<rparr>"
    by (simp add: world_of_def)
  have 1: "files (snd (fix_notebook (world_of [train_cell]))) NOTEBOOK_PATH
     = Some \<lparr>cells = [patched_train_cell, import_cell, dataset_path_cell], nb_rest = []\<rparr>"
    by (simp add: fix_notebook_nonempty[OF f] patch_cell_train)
  have 2: "patched_train_cell \<noteq> train_cell" by code_simp
  have e: "files (world_of []) NOTEBOOK_PATH = Some \<lparr>cells = [], nb_rest = []\<rparr>"
    by (simp add: world_of_def)
  have 3: "fix_notebook (world_of [])
       = (Inl IndexError,
          \<lparr>files = [NOTEBOOK_PATH \<mapsto> \<lparr>cells = [], nb_rest = []\<rparr>,
                    backup_path \<mapsto> \<lparr>cells = [], nb_rest = []\<rparr>],
           stdout = [''Created backup at '' @ backup_path]\<rparr>)"
    by (simp add: fix_notebook_empty[OF e]) (simp add: world_of_def)
  show ?thesis using 1 2 3 by simp
qed

lemma patch_cell_rewrites:
  "(cell_type c = ''code'' \<and> str_contains (concat (source c)) ''def end2end_train'' \<longrightarrow>
      patch_cell c = c\<lparr>source := source (patch_cell c)\<rparr>
      \<and> length (source (patch_cell c)) = length (source c)
      \<and> (\<forall>j<length (source c).
            source (patch_cell c) ! j =
              (let line = source c ! j in
               if str_contains line ''DIV2K_PATH'' \<and> \<not> str_contains line ''/nas1/DIV2K''
               then ''    DIV2K_PATH = '/nas1/DIV2K'  # Updated path\<newline>''
               else if str_contains line ''denormalize_ImageNet''
               then replace_str ''denormalize_ImageNet'' ''safe_denormalize'' line
               else line)))
   \<and> (\<not> (cell_type c = ''code'' \<and> str_contains (concat (source c)) ''def end2end_train'') \<longrightarrow>
      patch_cell c = c)"
  by (simp add: patch_cell_def is_train_cell_def rewrite_line_def Let_def)

text \<open>
  Claim C4, as the code has it. Every cell \<open>i\<close> of the input notebook is found in the
  rewritten notebook at position 0 (for \<open>i = 0\<close>) or \<open>i + 2\<close>. If it is a code cell whose
  concatenated source contains the training-function definition, only its source differs,
  line by line: a line referencing the dataset-path variable that does not contain the new
  literal path is replaced by the assignment of the new path; otherwise a line referencing
  the old denormalization function name has that name replaced by the new helper's name;
  every other line is unchanged. Any other cell is unchanged.
\<close>

theorem fix_notebook_rewrites_code_cells:
  assumes "files w NOTEBOOK_PATH = Some nb" and "i < length (cells nb)"
  shows "\<exists>nb'. files (snd (fix_notebook w)) NOTEBOOK_PATH = Some nb' \<and>
     (let c = cells nb ! i; c' = cells nb' ! (if i = 0 then 0 else i + 2) in
        (cell_type c = ''code'' \<and> str_contains (concat (source c)) ''def end2end_train'' \<longrightarrow>
           c' = c\<lparr>source := source c'\<rparr> \<and> length (source c') = length (source c) \<and>
           (\<forall>j<length (source c).
              source c' ! j =
                (let line = source c ! j in
                 if str_contains line ''DIV2K_PATH'' \<and> \<not> str_contains line ''/nas1/DIV2K''
                 then ''    DIV2K_PATH = '/nas1/DIV2K'  # Updated path\<newline>''
                 else if str_contains line ''denormalize_ImageNet''
                 then replace_str ''denormalize_ImageNet'' ''safe_denormalize'' line
                 else line)))
        \<and> (\<not> (cell_type c = ''code'' \<and> str_contains (concat (source c)) ''def end2end_train'') \<longrightarrow>
           c' = c))"
proof -
  obtain c0 cs where cs: "cells nb = c0 # cs" using assms(2) by (cases "cells nb") auto
  let ?out = "patch_cell c0 # import_cell # dataset_path_cell # map patch_cell cs"
  have out: "files (snd (fix_notebook w)) NOTEBOOK_PATH = Some (nb\<lparr>cells := ?out\<rparr>)"
    by (simp add: fix_notebook_nonempty[OF assms(1) cs])
  have pos: "?out ! (if i = 0 then 0 else i + 2) = patch_cell (cells nb ! i)"
    using assms(2) cs by (cases i) auto
  have "cells (nb\<lparr>cells := ?out\<rparr>) ! (if i = 0 then 0 else i + 2) = patch_cell (cells nb ! i)"
    using pos by simp
  then show ?thesis
    unfolding out Let_def
    using patch_cell_rewrites[of "cells nb ! i", unfolded Let_def]
    by (intro exI[of _ "nb\<lparr>cells := ?out\<rparr>"]) (simp only: simp_thms)
qed


theorem fix_notebook_rewrites_code_cells_witness:
  "files (world_of [markdown_cell, train_cell]) NOTEBOOK_PATH
     = Some \<lparr>cells = [markdown_cell, train_cell], nb_rest = []\<rparr>
   \<and> (1::nat) < length (cells \<lparr>cells = [markdown_cell, train_cell], nb_rest = []\<rparr>)
   \<and> cell_type train_cell = ''code''
   \<and> str_contains (concat (source train_cell)) ''def end2end_train''
   \<and> files (snd (fix_notebook (world_of [markdown_cell, train_cell]))) NOTEBOOK_PATH
       = Some \<lparr>cells = [markdown_cell, import_cell, dataset_path_cell, patched_train_cell],
               nb_rest = []\<rparr>"
proof -
  let ?nb = "\<lparr>cells = [markdown_cell, train_cell], nb_rest = []\<rparr>"
  have f: "files (world_of [markdown_cell, train_cell]) NOTEBOOK_PATH = Some ?nb"
    by (simp add: world_of_def)
  have l: "(1::nat) < length (cells ?nb)" by simp
  have c: "cell_type train_cell = ''code''"
    "str_contains (concat (source train_cell)) ''def end2end_train''"
    by code_simp+
  have o: "files (snd (fix_notebook (world_of [markdown_cell, train_cell]))) NOTEBOOK_PATH
       = Some \<lparr>cells = [markdown_cell, import_cell, dataset_path_cell, patched_train_cell],
               nb_rest = []\<rparr>"
    by (simp add: fix_notebook_nonempty[OF f] patch_cell_train patch_cell_markdown)
  show ?thesis
    using fix_notebook_rewrites_code_cells[OF f l] f l c o by simp
qed

lemma patch_cell_mixed: "patch_cell mixed_cell = patched_mixed_cell"
  by code_simp

text \<open>
  The claim as the specification words it fails on a markdown cell whose source contains
  the training-function definition (it is not rewritten), and on a line of a training cell
  that references both the dataset-path variable and the old function name (the whole line
  becomes the path assignment).
\<close>

theorem fix_notebook_rewrites_counterexample:
  "files (snd (fix_notebook (world_of [markdown_cell, mixed_cell]))) NOTEBOOK_PATH
     = Some \<lparr>cells = [markdown_cell, import_cell, dataset_path_cell, patched_mixed_cell],
             nb_rest = []\<rparr>
   \<and> str_contains (concat (source markdown_cell)) ''def end2end_train''
   \<and> str_contains (source markdown_cell ! 1) ''denormalize_ImageNet''
   \<and> str_contains (concat (source mixed_cell)) ''def end2end_train''
   \<and> str_contains (source mixed_cell ! 1) ''denormalize_ImageNet''
   \<and> source patched_mixed_cell ! 1
        \<noteq> replace_str ''denormalize_ImageNet'' ''safe_denormalize'' (source mixed_cell ! 1)"
proof -
  have f: "files (world_of [markdown_cell, mixed_cell]) NOTEBOOK_PATH
             = Some \<lparr>cells = [markdown_cell, mixed_cell], nb_rest = []\<rparr>"
    by (simp add: world_of_def)
  have 1: "files (snd (fix_notebook (world_of [markdown_cell, mixed_cell]))) NOTEBOOK_PATH
     = Some \<lparr>cells = [markdown_cell, import_cell, dataset_path_cell, patched_mixed_cell],
             nb_rest = []\<rparr>"
    by (simp add: fix_notebook_nonempty[OF f] patch_cell_mixed patch_cell_markdown)
  have 2: "str_contains (concat (source markdown_cell)) ''def end2end_train''"
    "str_contains (source markdown_cell ! 1) ''denormalize_ImageNet''"
    "str_contains (concat (source mixed_cell)) ''def end2end_train''"
    "str_contains (source mixed_cell ! 1) ''denormalize_ImageNet''"
    "source patched_mixed_cell ! 1
        \<noteq> replace_str ''denormalize_ImageNet'' ''safe_denormalize'' (source mixed_cell ! 1)"
    by code_simp+
  show ?thesis using 1 2 by simp
qed

section \<open>Properties of the PSF plotters\<close>

lemma foldl_fmax2_Fin: "foldl fmax2 (Fin a) (map Fin xs) = Fin (Max (set (a # xs)))"
proof (induction xs arbitrary: a)
  case Nil
  then show ?case by simp
next
  case (Cons x xs)
  have "fmax2 (Fin a) (Fin x) = Fin (max a x)" by (simp add: fmax2_def max_def)
  then have "foldl fmax2 (Fin a) (map Fin (x # xs)) = Fin (Max (set (max a x # xs)))"
    using Cons.IH by simp
  also have "Max (set (max a x # xs)) = Max (set (a # x # xs))"
    by (cases "xs = []") (simp_all add: max.assoc)
  finally show ?case .
qed

lemma foldl_fmin2_Fin: "foldl fmin2 (Fin a) (map Fin xs) = Fin (Min (set (a # xs)))"
proof (induction xs arbitrary: a)
  case Nil
  then show ?case by simp
next
  case (Cons x xs)
  have "fmin2 (Fin a) (Fin x) = Fin (min a x)" by (simp add: fmin2_def min_def)
  then have "foldl fmin2 (Fin a) (map Fin (x # xs)) = Fin (Min (set (min a x # xs)))"
    using Cons.IH by simp
  also have "Min (set (min a x # xs)) = Min (set (a # x # xs))"
    by (cases "xs = []") (simp_all add: min.assoc)
  finally show ?case .
qed

lemma tmax_Fin: "data t = map Fin xs \<Longrightarrow> xs \<noteq> [] \<Longrightarrow> tmax t = Inr (Fin (Max (set xs)))"
  by (cases xs) (simp_all add: tmax_def foldl_fmax2_Fin del: set_simps)

lemma tmin_Fin: "data t = map Fin xs \<Longrightarrow> xs \<noteq> [] \<Longrightarrow> tmin t = Inr (Fin (Min (set xs)))"
  by (cases xs) (simp_all add: tmin_def foldl_fmin2_Fin del: set_simps)

lemma all_Fin_map:
  assumes "\<forall>x\<in>set xs. \<exists>a. x = Fin a \<and> P a"
  shows "\<exists>as. xs = map Fin as \<and> (\<forall>a\<in>set as. P a)"
  using assms
proof (induction xs)
  case Nil
  then show ?case by simp
next
  case (Cons x xs)
  then obtain as where as: "xs = map Fin as" "\<forall>a\<in>set as. P a" by auto
  from Cons.prems obtain a where a: "x = Fin a" "P a" by auto
  have "x # xs = map Fin (a # as) \<and> (\<forall>b\<in>set (a # as). P b)" using as a by simp
  then show ?case by (intro exI[of _ "a # as"])
qed

lemma log_scale_step_Fin:
  assumes "data psf = map Fin xs" and "xs \<noteq> []" and "\<forall>a\<in>set xs. 0 < a + eps"
    and mn: "mn = Min (set (map (\<lambda>a. ln (a + eps)) xs))"
    and mx: "mx = Max (set (map (\<lambda>a. ln (a + eps)) xs))"
    and "mn < mx"
  shows "log_scale_step eps psf =
           Inr (psf\<lparr>data := map (\<lambda>a. Fin ((ln (a + eps) - mn) / (mx - mn))) xs\<rparr>)"
proof -
  let ?ys = "map (\<lambda>a. ln (a + eps)) xs"
  let ?p = "tmap (\<lambda>x. flog (fadd x (Fin eps))) psf"
  have d: "data ?p = map Fin ?ys" using assms(1,3) by (simp add: tmap_def)
  have ne: "?ys \<noteq> []" using assms(2) by simp
  have tmn: "tmin ?p = Inr (Fin mn)" unfolding mn by (rule tmin_Fin[OF d ne])
  have tmx: "tmax ?p = Inr (Fin mx)" unfolding mx by (rule tmax_Fin[OF d ne])
  have nz: "mx - mn \<noteq> 0" using assms(6) by simp
  show ?thesis
    unfolding log_scale_step_def Let_def tmn tmx ebind_def sum.case
    using nz assms(1,3) by (simp add: tmap_def fsub_def)
qed

lemma is_finite_iff: "is_finite x \<longleftrightarrow> (\<exists>a. x = Fin a)"
  by (cases x) simp_all

lemma foldl_fmin2_NaN: "foldl fmin2 NaN xs = NaN"
  by (induction xs) (simp_all add: fmin2_def)

lemma foldl_fmax2_NaN: "foldl fmax2 NaN xs = NaN"
  by (induction xs) (simp_all add: fmax2_def)

lemma tmin_all_NaN: "data t \<noteq> [] \<Longrightarrow> \<forall>x\<in>set (data t). x = NaN \<Longrightarrow> tmin t = Inr NaN"
  by (cases "data t") (simp_all add: tmin_def foldl_fmin2_NaN)

lemma tmax_all_NaN: "data t \<noteq> [] \<Longrightarrow> \<forall>x\<in>set (data t). x = NaN \<Longrightarrow> tmax t = Inr NaN"
  by (cases "data t") (simp_all add: tmax_def foldl_fmax2_NaN)

text \<open>The log-scale step when every logarithm is finite: each entry is the difference to
  the minimum divided by the range.\<close>

lemma log_scale_step_logs:
  assumes "data (tmap (\<lambda>x. flog (fadd x (Fin eps))) psf) = map Fin ys" and "ys \<noteq> []"
  shows "log_scale_step eps psf =
           Inr (psf\<lparr>data := map (\<lambda>y. fdiv (Fin (y - Min (set ys)))
                                         (Fin (Max (set ys) - Min (set ys)))) ys\<rparr>)"
proof -
  let ?p = "tmap (\<lambda>x. flog (fadd x (Fin eps))) psf"
  have tmn: "tmin ?p = Inr (Fin (Min (set ys)))" by (rule tmin_Fin[OF assms])
  have tmx: "tmax ?p = Inr (Fin (Max (set ys)))" by (rule tmax_Fin[OF assms])
  have pd: "?p = psf\<lparr>data := map Fin ys\<rparr>"
    using assms(1) by (simp add: tmap_def)
  have p1: "tmap (\<lambda>x. fsub x (Fin (Min (set ys)))) ?p
              = psf\<lparr>data := map (\<lambda>y. Fin (y - Min (set ys))) ys\<rparr>"
    unfolding pd by (simp add: tmap_def fsub_def comp_def)
  have r: "fsub (Fin (Max (set ys))) (Fin (Min (set ys))) = Fin (Max (set ys) - Min (set ys))"
    by (simp add: fsub_def)
  have s: "tmap (\<lambda>x. fdiv x (fsub (Fin (Max (set ys))) (Fin (Min (set ys)))))
                  (tmap (\<lambda>x. fsub x (Fin (Min (set ys)))) ?p)
           = psf\<lparr>data := map (\<lambda>y. fdiv (Fin (y - Min (set ys)))
                                         (Fin (Max (set ys) - Min (set ys)))) ys\<rparr>"
    unfolding p1 r by (simp add: tmap_def comp_def del: fdiv.simps)
  show ?thesis
    unfolding log_scale_step_def Let_def tmn tmx ebind_def sum.case
    by (simp only: s)
qed

text \<open>
  Claim C6, as the code has it. Let the entries of \<open>log (PSF + EPSILON)\<close> be finite. If they
  are not all equal, the log-scale step returns a tensor of the shape of the PSF whose
  minimum element is 0 and whose maximum element is 1. If they are all equal (and there
  is one), as for every constant PSF, the rescaling divides 0 by 0: every entry of the
  result, its minimum and its maximum are NaN. Over exact reals the first case holds for
  every PSF with finite entries above \<open>- EPSILON\<close> that are not all equal.
\<close>

theorem log_scale_step_range:
  assumes "logs = data (tmap (\<lambda>x. flog (fadd x (Fin eps))) psf)"
    and "\<forall>y\<in>set logs. is_finite y"
  shows "((\<exists>y\<in>set logs. \<exists>z\<in>set logs. y \<noteq> z) \<longrightarrow>
           (\<exists>out. log_scale_step eps psf = Inr out \<and> shape out = shape psf
              \<and> tmin out = Inr (Fin 0) \<and> tmax out = Inr (Fin 1)))
       \<and> (logs \<noteq> [] \<and> (\<forall>y\<in>set logs. \<forall>z\<in>set logs. y = z) \<longrightarrow>
           (\<exists>out. log_scale_step eps psf = Inr out \<and> shape out = shape psf
              \<and> length (data out) = length (data psf)
              \<and> (\<forall>x\<in>set (data out). x = NaN)
              \<and> tmin out = Inr NaN \<and> tmax out = Inr NaN))
       \<and> (data psf \<noteq> [] \<and> (\<forall>x\<in>set (data psf). \<forall>y\<in>set (data psf). x = y) \<longrightarrow>
           (\<exists>out. log_scale_step eps psf = Inr out \<and> shape out = shape psf
              \<and> length (data out) = length (data psf)
              \<and> (\<forall>x\<in>set (data out). x = NaN)
              \<and> tmin out = Inr NaN \<and> tmax out = Inr NaN))
       \<and> (0 < eps \<and> (\<forall>x\<in>set (data psf). \<exists>a. x = Fin a \<and> - eps < a)
            \<and> (\<exists>x\<in>set (data psf). \<exists>y\<in>set (data psf). x \<noteq> y) \<longrightarrow>
           (\<exists>out. log_scale_step eps psf = Inr out \<and> shape out = shape psf
              \<and> tmin out = Inr (Fin 0) \<and> tmax out = Inr (Fin 1)))"
proof -
  have "\<forall>y\<in>set logs. \<exists>a. y = Fin a \<and> True" using assms(2) by (simp add: is_finite_iff)
  then obtain ys where ys: "logs = map Fin ys" using all_Fin_map[of logs "\<lambda>_. True"] by blast
  have dl: "data (tmap (\<lambda>x. flog (fadd x (Fin eps))) psf) = map Fin ys"
    using ys assms(1) by simp
  have len: "length ys = length (data psf)"
  proof -
    have "length ys = length logs" using ys by simp
    then show ?thesis using assms(1) by (simp add: tmap_def)
  qed
  let ?mn = "Min (set ys)" and ?mx = "Max (set ys)"
  let ?out = "psf\<lparr>data := map (\<lambda>y. fdiv (Fin (y - ?mn)) (Fin (?mx - ?mn))) ys\<rparr>"
  have A: "\<exists>out. log_scale_step eps psf = Inr out \<and> shape out = shape psf
              \<and> tmin out = Inr (Fin 0) \<and> tmax out = Inr (Fin 1)"
    if ne: "\<exists>y\<in>set logs. \<exists>z\<in>set logs. y \<noteq> z"
  proof -
    from ne ys obtain a b where ab: "a \<in> set ys" "b \<in> set ys" "a \<noteq> b" by auto
    have nz: "ys \<noteq> []" using ab by auto
    have fin: "finite (set ys)" by simp
    have "?mn \<le> a" "?mn \<le> b" "a \<le> ?mx" "b \<le> ?mx"
      using ab fin by (auto intro: Min_le Max_ge)
    then have lt: "?mn < ?mx" using ab(3) by linarith
    have mn_in: "?mn \<in> set ys" using nz by (intro Min_in) auto
    have mx_in: "?mx \<in> set ys" using nz by (intro Max_in) auto
    let ?g = "\<lambda>y. (y - ?mn) / (?mx - ?mn)"
    let ?zs = "map ?g ys"
    have out: "log_scale_step eps psf = Inr ?out" by (rule log_scale_step_logs[OF dl nz])
    have dout: "data ?out = map Fin ?zs" using lt by simp
    have zne: "?zs \<noteq> []" using nz by simp
    have z0: "0 \<in> set ?zs"
    proof -
      have "?g ?mn = 0" by simp
      then show ?thesis using mn_in by force
    qed
    have z1: "1 \<in> set ?zs"
    proof -
      have "?g ?mx = 1" using lt by simp
      then show ?thesis using mx_in by force
    qed
    have zb: "\<forall>z\<in>set ?zs. 0 \<le> z \<and> z \<le> 1"
    proof
      fix z assume "z \<in> set ?zs"
      then obtain y where y: "y \<in> set ys" "z = ?g y" by auto
      have "?mn \<le> y" "y \<le> ?mx" using y(1) fin by (auto intro: Min_le Max_ge)
      then show "0 \<le> z \<and> z \<le> 1" unfolding y(2) using lt by (simp add: divide_le_eq)
    qed
    have "Min (set ?zs) = 0" using z0 zb by (intro Min_eqI) auto
    then have tmn: "tmin ?out = Inr (Fin 0)" using tmin_Fin[OF dout zne] by simp
    have "Max (set ?zs) = 1" using z1 zb by (intro Max_eqI) auto
    then have tmx: "tmax ?out = Inr (Fin 1)" using tmax_Fin[OF dout zne] by simp
    show ?thesis using out tmn tmx by (intro exI[of _ ?out]) simp
  qed
  have B: "\<exists>out. log_scale_step eps psf = Inr out \<and> shape out = shape psf
              \<and> length (data out) = length (data psf)
              \<and> (\<forall>x\<in>set (data out). x = NaN)
              \<and> tmin out = Inr NaN \<and> tmax out = Inr NaN"
    if eq: "logs \<noteq> [] \<and> (\<forall>y\<in>set logs. \<forall>z\<in>set logs. y = z)"
  proof -
    have nz: "ys \<noteq> []" using eq ys by auto
    have fin: "finite (set ys)" by simp
    have mn_in: "?mn \<in> set ys" using nz by (intro Min_in) auto
    have mx_in: "?mx \<in> set ys" using nz by (intro Max_in) auto
    have same: "\<forall>y\<in>set ys. y = ?mn"
    proof
      fix y assume "y \<in> set ys"
      then have "Fin y \<in> set logs" "Fin ?mn \<in> set logs" using ys mn_in by auto
      then have "Fin y = Fin ?mn" using eq by blast
      then show "y = ?mn" by simp
    qed
    then have mxmn: "?mx = ?mn" using mx_in by blast
    have out: "log_scale_step eps psf = Inr ?out" by (rule log_scale_step_logs[OF dl nz])
    have nan: "\<forall>x\<in>set (data ?out). x = NaN" using same mxmn by auto
    have ne: "data ?out \<noteq> []" using nz by simp
    show ?thesis
      using out nan tmin_all_NaN[OF ne nan] tmax_all_NaN[OF ne nan] len
      by (intro exI[of _ ?out]) simp
  qed
  have C: "\<exists>out. log_scale_step eps psf = Inr out \<and> shape out = shape psf
              \<and> tmin out = Inr (Fin 0) \<and> tmax out = Inr (Fin 1)"
    if h: "0 < eps \<and> (\<forall>x\<in>set (data psf). \<exists>a. x = Fin a \<and> - eps < a)
            \<and> (\<exists>x\<in>set (data psf). \<exists>y\<in>set (data psf). x \<noteq> y)"
  proof -
    from h obtain xs where xs: "data psf = map Fin xs" "\<forall>a\<in>set xs. - eps < a"
      using all_Fin_map[of "data psf" "\<lambda>a. - eps < a"] by blast
    from h xs(1) obtain a b where ab: "a \<in> set xs" "b \<in> set xs" "a \<noteq> b" by auto
    have pos: "\<forall>a\<in>set xs. 0 < a + eps" using xs(2) by auto
    have lg: "logs = map (\<lambda>a. Fin (ln (a + eps))) xs"
      using assms(1) xs(1) pos by (simp add: tmap_def)
    have "Fin (ln (a + eps)) \<in> set logs" "Fin (ln (b + eps)) \<in> set logs"
      using ab lg by auto
    moreover have "Fin (ln (a + eps)) \<noteq> Fin (ln (b + eps))" using ab pos by simp
    ultimately have "\<exists>y\<in>set logs. \<exists>z\<in>set logs. y \<noteq> z" by blast
    then show ?thesis by (rule A)
  qed
  have D: "\<exists>out. log_scale_step eps psf = Inr out \<and> shape out = shape psf
              \<and> length (data out) = length (data psf)
              \<and> (\<forall>x\<in>set (data out). x = NaN)
              \<and> tmin out = Inr NaN \<and> tmax out = Inr NaN"
    if h: "data psf \<noteq> [] \<and> (\<forall>x\<in>set (data psf). \<forall>y\<in>set (data psf). x = y)"
  proof -
    have lg: "logs = map (\<lambda>x. flog (fadd x (Fin eps))) (data psf)"
      using assms(1) by (simp add: tmap_def)
    have "logs \<noteq> []" using h lg by simp
    moreover have "\<forall>y\<in>set logs. \<forall>z\<in>set logs. y = z"
    proof (intro ballI)
      fix y z assume "y \<in> set logs" "z \<in> set logs"
      then obtain a b where "a \<in> set (data psf)" "y = flog (fadd a (Fin eps))"
        "b \<in> set (data psf)" "z = flog (fadd b (Fin eps))" using lg by auto
      then show "y = z" using h by auto
    qed
    ultimately show ?thesis using B by blast
  qed
  show ?thesis
  proof (intro conjI impI)
    assume "\<exists>y\<in>set logs. \<exists>z\<in>set logs. y \<noteq> z" then show "\<exists>out. log_scale_step eps psf = Inr out \<and> shape out = shape psf
              \<and> tmin out = Inr (Fin 0) \<and> tmax out = Inr (Fin 1)" by (rule A)
  next
    assume "logs \<noteq> [] \<and> (\<forall>y\<in>set logs. \<forall>z\<in>set logs. y = z)"
    then show "\<exists>out. log_scale_step eps psf = Inr out \<and> shape out = shape psf
              \<and> length (data out) = length (data psf)
              \<and> (\<forall>x\<in>set (data out). x = NaN)
              \<and> tmin out = Inr NaN \<and> tmax out = Inr NaN" by (rule B)
  next
    assume "data psf \<noteq> [] \<and> (\<forall>x\<in>set (data psf). \<forall>y\<in>set (data psf). x = y)"
    then show "\<exists>out. log_scale_step eps psf = Inr out \<and> shape out = shape psf
              \<and> length (data out) = length (data psf)
              \<and> (\<forall>x\<in>set (data out). x = NaN)
              \<and> tmin out = Inr NaN \<and> tmax out = Inr NaN" by (rule D)
  next
    assume "0 < eps \<and> (\<forall>x\<in>set (data psf). \<exists>a. x = Fin a \<and> - eps < a)
            \<and> (\<exists>x\<in>set (data psf). \<exists>y\<in>set (data psf). x \<noteq> y)"
    then show "\<exists>out. log_scale_step eps psf = Inr out \<and> shape out = shape psf
              \<and> tmin out = Inr (Fin 0) \<and> tmax out = Inr (Fin 1)" by (rule C)
  qed
qed

lemma linspace_from_zero:
  "0 \<le> M \<Longrightarrow> linspace 0 stop M = Inr (map (\<lambda>i. Fin (field_coord stop M i)) [0..<nat M])"
  by (simp add: linspace_def field_coord_def cong: if_cong)

lemma linspace_points:
  assumes "0 \<le> M"
  shows "ebind (linspace 0 stop M) (\<lambda>x. ebind (linspace 0 stop M) (\<lambda>y. F x y))
         = F (map (\<lambda>i. Fin (field_coord stop M i)) [0..<nat M])
             (map (\<lambda>i. Fin (field_coord stop M i)) [0..<nat M])"
  by (simp add: linspace_from_zero[OF assms] ebind_def)

lemma linspace_negative: "M < 0 \<Longrightarrow> linspace a b M = Inl RuntimeError"
  by (simp add: linspace_def)

lemma field_points_eq:
  "field_points (map (\<lambda>i. Fin (field_coord stop M i)) [0..<n])
                (map (\<lambda>i. Fin (field_coord stop M i)) [0..<n]) depth
   = map (field_point stop M depth) [0..<n]"
  by (simp add: field_points_def field_point_def)

lemma tmax_nonempty: "data t \<noteq> [] \<Longrightarrow> \<exists>m. tmax t = Inr m"
  by (cases "data t") (simp_all add: tmax_def)

lemma tmin_nonempty: "data t \<noteq> [] \<Longrightarrow> \<exists>m. tmin t = Inr m"
  by (cases "data t") (simp_all add: tmin_def)

lemma tmax_empty: "data t = [] \<Longrightarrow> tmax t = Inl RuntimeError"
  by (simp add: tmax_def)

lemma log_scale_step_ok:
  assumes "data t \<noteq> []"
  shows "\<exists>r. log_scale_step eps t = Inr r \<and> shape r = shape t \<and> length (data r) = length (data t)"
proof -
  let ?p = "tmap (\<lambda>x. flog (fadd x (Fin eps))) t"
  have ne: "data ?p \<noteq> []" using assms by (simp add: tmap_def)
  obtain mn mx where m: "tmin ?p = Inr mn" "tmax ?p = Inr mx"
    using tmin_nonempty[OF ne] tmax_nonempty[OF ne] by blast
  show ?thesis
    unfolding log_scale_step_def Let_def m ebind_def sum.case
    by (simp add: tmap_def)
qed

lemma normalize_psf_ok:
  assumes "data t \<noteq> []"
  shows "\<exists>r. normalize_psf eps ls t = Inr r \<and> shape r = shape t \<and> length (data r) = length (data t)"
proof -
  obtain m where m: "tmax t = Inr m" using tmax_nonempty[OF assms] by blast
  let ?p = "tmap (\<lambda>x. fdiv x m) t"
  have ne: "data ?p \<noteq> []" using assms by (simp add: tmap_def)
  have sh: "shape ?p = shape t" "length (data ?p) = length (data t)" by (simp_all add: tmap_def)
  show ?thesis
  proof (cases ls)
    case True
    then show ?thesis
      unfolding normalize_psf_def m ebind_def sum.case Let_def
      using log_scale_step_ok[OF ne, of eps] sh by simp
  next
    case False
    then show ?thesis
      unfolding normalize_psf_def m ebind_def sum.case Let_def
      using sh by simp
  qed
qed

lemma normalize_psf_unfold:
  "tmax t = Inr m \<Longrightarrow>
   normalize_psf eps ls t =
     (if ls then log_scale_step eps (tmap (\<lambda>x. fdiv x m) t) else Inr (tmap (\<lambda>x. fdiv x m) t))"
  by (simp add: normalize_psf_def ebind_def)

text \<open>The strict loop succeeds exactly when every point's PSF is produced and normalized.\<close>

lemma fixed_loop_Inr:
  "fixed_loop lens ks eps ls ps = Inr psfs \<longleftrightarrow>
     length psfs = length ps \<and>
     (\<forall>i<length ps. ebind (lens (ps ! i) ks True 4096) (normalize_psf eps ls) = Inr (psfs ! i))"
proof (induction ps arbitrary: psfs)
  case Nil
  then show ?case by auto
next
  case (Cons p ps)
  show ?case
  proof (cases "ebind (lens p ks True 4096) (normalize_psf eps ls)")
    case (Inl e)
    then have "fixed_loop lens ks eps ls (p # ps) = Inl e"
      by (auto simp: ebind_def split: sum.splits)
    moreover have "\<not> (\<forall>i<length (p # ps). ebind (lens ((p # ps) ! i) ks True 4096) (normalize_psf eps ls) = Inr (psfs ! i))"
      using Inl by (auto intro: exI[of _ 0])
    ultimately show ?thesis by simp
  next
    case (Inr t)
    show ?thesis
    proof (cases "fixed_loop lens ks eps ls ps")
      case (Inl e)
      then have l: "fixed_loop lens ks eps ls (p # ps) = Inl e"
        using Inr by (auto simp: ebind_def split: sum.splits)
      have "\<not> (length psfs = length (p # ps) \<and> (\<forall>i<length (p # ps). ebind (lens ((p # ps) ! i) ks True 4096) (normalize_psf eps ls) = Inr (psfs ! i)))"
      proof
        assume a: "length psfs = length (p # ps) \<and> (\<forall>i<length (p # ps). ebind (lens ((p # ps) ! i) ks True 4096) (normalize_psf eps ls) = Inr (psfs ! i))"
        then obtain q qs where q: "psfs = q # qs" by (cases psfs) auto
        have "length qs = length ps \<and> (\<forall>i<length ps. ebind (lens (ps ! i) ks True 4096) (normalize_psf eps ls) = Inr (qs ! i))"
          using a q by auto
        then have "fixed_loop lens ks eps ls ps = Inr qs" using Cons.IH by blast
        then show False using Inl by simp
      qed
      then show ?thesis using l by simp
    next
      case (Inr r)
      then have l: "fixed_loop lens ks eps ls (p # ps) = Inr (t # r)"
        using \<open>ebind (lens p ks True 4096) (normalize_psf eps ls) = Inr t\<close>
        by (auto simp: ebind_def split: sum.splits)
      have r: "length r = length ps" "\<forall>i<length ps. ebind (lens (ps ! i) ks True 4096) (normalize_psf eps ls) = Inr (r ! i)"
        using Cons.IH[of r] Inr by auto
      show ?thesis
      proof
        assume "fixed_loop lens ks eps ls (p # ps) = Inr psfs"
        then have "psfs = t # r" using l by simp
        then show "length psfs = length (p # ps) \<and> (\<forall>i<length (p # ps). ebind (lens ((p # ps) ! i) ks True 4096) (normalize_psf eps ls) = Inr (psfs ! i))"
          using r \<open>ebind (lens p ks True 4096) (normalize_psf eps ls) = Inr t\<close>
          by (auto simp: nth_Cons split: nat.splits)
      next
        assume a: "length psfs = length (p # ps) \<and> (\<forall>i<length (p # ps). ebind (lens ((p # ps) ! i) ks True 4096) (normalize_psf eps ls) = Inr (psfs ! i))"
        then obtain q qs where q: "psfs = q # qs" by (cases psfs) auto
        have "q = t" using a q \<open>ebind (lens p ks True 4096) (normalize_psf eps ls) = Inr t\<close> by auto
        moreover have "length qs = length ps \<and> (\<forall>i<length ps. ebind (lens (ps ! i) ks True 4096) (normalize_psf eps ls) = Inr (qs ! i))"
          using a q by auto
        then have "fixed_loop lens ks eps ls ps = Inr qs" using Cons.IH by blast
        then have "qs = r" using Inr by simp
        ultimately show "fixed_loop lens ks eps ls (p # ps) = Inr psfs" using l q by simp
      qed
    qed
  qed
qed

lemma fixed_loop_first_raises:
  "lens p ks True 4096 = Inl e \<Longrightarrow> fixed_loop lens ks eps ls (p # ps) = Inl e"
  by (simp add: ebind_def)

lemma make_grid_ok:
  assumes "psfs \<noteq> []" and "\<forall>t\<in>set psfs. shape t = shp"
  shows "make_grid psfs n pad pv = Inr \<lparr>tiles = psfs, nrow = n, padding = pad, pad_value = pv\<rparr>"
  using assms by (cases psfs) (auto simp: make_grid_def)

lemma fixed_psf_radial_unfold:
  assumes "0 \<le> M"
  shows "fixed_psf_radial eps lens M depth ks ls save_name w =
     (case ebind (fixed_loop lens ks eps ls (map (field_point 1 M depth) [0..<nat M]))
                 (\<lambda>psfs. make_grid psfs M 1 (Fin 0)) of
        Inl e \<Rightarrow> (Inl e, w)
      | Inr psf_grid \<Rightarrow>
          (Inr save_name,
           (save_image psf_grid save_name True w)
             \<lparr>printed := printed w @ [''PSF radial has been saved to '' @ save_name]\<rparr>))"
  unfolding fixed_psf_radial_def
  by (subst linspace_points[OF assms]) (simp only: field_points_eq)

lemma fixed_psf_radial_success:
  assumes "0 < M"
    and "\<forall>i<nat M. \<exists>psf. lens (field_point 1 M depth i) ks True 4096 = Inr psf
                          \<and> data psf \<noteq> [] \<and> shape psf = shp"
  shows "\<exists>psfs. fixed_psf_radial eps lens M depth ks ls save_name w =
           (Inr save_name,
            w\<lparr>images := (images w)(save_name \<mapsto>
                  \<lparr>saved_grid = \<lparr>tiles = psfs, nrow = M, padding = 1, pad_value = Fin 0\<rparr>,
                   saved_normalize = True\<rparr>),
              printed := printed w @ [''PSF radial has been saved to '' @ save_name]\<rparr>)
         \<and> length psfs = nat M
         \<and> (\<forall>i<nat M. ebind (lens (field_point 1 M depth i) ks True 4096) (normalize_psf eps ls)
                         = Inr (psfs ! i))"
proof -
  define one where
    "one = (\<lambda>i. ebind (lens (field_point 1 M depth i) ks True 4096) (normalize_psf eps ls))"
  define psfs where "psfs = map (\<lambda>i. projr (one i)) [0..<nat M]"
  let ?pts = "map (field_point 1 M depth) [0..<nat M]"
  have one: "\<forall>i<nat M. one i = Inr (psfs ! i) \<and> shape (psfs ! i) = shp"
  proof (intro allI impI)
    fix i assume i: "i < nat M"
    then obtain psf where p: "lens (field_point 1 M depth i) ks True 4096 = Inr psf"
      "data psf \<noteq> []" "shape psf = shp" using assms(2) by blast
    obtain r where r: "normalize_psf eps ls psf = Inr r" "shape r = shape psf"
      using normalize_psf_ok[OF p(2)] by blast
    have "one i = Inr r" using p(1) r(1) by (simp add: one_def ebind_def)
    then show "one i = Inr (psfs ! i) \<and> shape (psfs ! i) = shp"
      using i r(2) p(3) by (simp add: psfs_def)
  qed
  have len: "length psfs = nat M" by (simp add: psfs_def)
  have loop: "fixed_loop lens ks eps ls ?pts = Inr psfs"
    unfolding fixed_loop_Inr using one len by (simp add: one_def)
  have ne: "psfs \<noteq> []" using assms(1) len by auto
  have sh: "\<forall>t\<in>set psfs. shape t = shp"
  proof
    fix t assume "t \<in> set psfs"
    then obtain i where "i < nat M" "t = psfs ! i" using len by (auto simp: in_set_conv_nth)
    then show "shape t = shp" using one by metis
  qed
  have grid: "make_grid psfs M 1 (Fin 0) = Inr \<lparr>tiles = psfs, nrow = M, padding = 1, pad_value = Fin 0\<rparr>"
    by (rule make_grid_ok[OF ne sh])
  have M0: "0 \<le> M" using assms(1) by simp
  have "ebind (fixed_loop lens ks eps ls ?pts) (\<lambda>psfs. make_grid psfs M 1 (Fin 0))
          = Inr \<lparr>tiles = psfs, nrow = M, padding = 1, pad_value = Fin 0\<rparr>"
    by (simp only: loop ebind_def sum.case grid)
  then have "fixed_psf_radial eps lens M depth ks ls save_name w =
           (Inr save_name,
            w\<lparr>images := (images w)(save_name \<mapsto>
                  \<lparr>saved_grid = \<lparr>tiles = psfs, nrow = M, padding = 1, pad_value = Fin 0\<rparr>,
                   saved_normalize = True\<rparr>),
              printed := printed w @ [''PSF radial has been saved to '' @ save_name]\<rparr>)"
    unfolding fixed_psf_radial_unfold[OF M0]
    by (simp add: save_image_def)
  then show ?thesis using one len unfolding one_def by (intro exI[of _ psfs]) blast
qed

lemma fixed_psf_radial_first_raises:
  assumes "0 < M" and "lens (field_point 1 M depth 0) ks True 4096 = Inl e"
  shows "fixed_psf_radial eps lens M depth ks ls save_name w = (Inl e, w)"
proof -
  have M0: "0 \<le> M" using assms(1) by simp
  have "0 < nat M" using assms(1) by simp
  then have pts: "map (field_point 1 M depth) [0..<nat M]
             = field_point 1 M depth 0 # map (field_point 1 M depth) [1..<nat M]"
    by (simp add: upt_conv_Cons)
  show ?thesis
    unfolding fixed_psf_radial_unfold[OF M0] pts
    using assms(2) by (simp add: ebind_def)
qed

text \<open>
  Claim C3. Given at least one field point and a lens whose PSF generation always succeeds
  (with non-empty PSFs of one shape), \<open>fixed_psf_radial\<close> returns the \<open>save_name\<close> it was
  given and a file of that name exists afterwards. Given a lens that raises the validity
  failure on the first field point, the call raises that failure and the world, and so
  the files, are as before.
\<close>

theorem fixed_psf_radial_success_or_raise:
  "(0 < M \<and> (\<forall>p k r s. \<exists>psf. lens p k r s = Inr psf \<and> data psf \<noteq> [] \<and> shape psf = shp) \<longrightarrow>
      fst (fixed_psf_radial eps lens M depth ks ls save_name w) = Inr save_name
      \<and> images (snd (fixed_psf_radial eps lens M depth ks ls save_name w)) save_name \<noteq> None)
   \<and> (0 < M \<and> lens' (field_point 1 M depth 0) ks True 4096 = Inl AssertionError \<longrightarrow>
      fixed_psf_radial eps lens' M depth ks ls save_name w = (Inl AssertionError, w))"
proof (intro conjI impI)
  assume a: "0 < M \<and> (\<forall>p k r s. \<exists>psf. lens p k r s = Inr psf \<and> data psf \<noteq> [] \<and> shape psf = shp)"
  then have h: "\<forall>i<nat M. \<exists>psf. lens (field_point 1 M depth i) ks True 4096 = Inr psf
                          \<and> data psf \<noteq> [] \<and> shape psf = shp" by blast
  from a have M: "0 < M" by simp
  from fixed_psf_radial_success[of M lens depth ks shp eps ls save_name w] M h
  obtain psfs where "fixed_psf_radial eps lens M depth ks ls save_name w =
           (Inr save_name,
            w\<lparr>images := (images w)(save_name \<mapsto>
                  \<lparr>saved_grid = \<lparr>tiles = psfs, nrow = M, padding = 1, pad_value = Fin 0\<rparr>,
                   saved_normalize = True\<rparr>),
              printed := printed w @ [''PSF radial has been saved to '' @ save_name]\<rparr>)" by blast
  then show "fst (fixed_psf_radial eps lens M depth ks ls save_name w) = Inr save_name"
    and "images (snd (fixed_psf_radial eps lens M depth ks ls save_name w)) save_name \<noteq> None"
    by simp_all
next
  assume "0 < M \<and> lens' (field_point 1 M depth 0) ks True 4096 = Inl AssertionError"
  then show "fixed_psf_radial eps lens' M depth ks ls save_name w = (Inl AssertionError, w)"
    using fixed_psf_radial_first_raises by blast
qed


theorem fixed_psf_radial_success_or_raise_witness:
  "(0::int) < 2
   \<and> fst (fixed_psf_radial 1 (const_lens two_pixels) 2 PInf 101 True ''psf_radial.png'' world0)
       = Inr ''psf_radial.png''
   \<and> images (snd (fixed_psf_radial 1 (const_lens two_pixels) 2 PInf 101 True
                      ''psf_radial.png'' world0)) ''psf_radial.png'' \<noteq> None
   \<and> failing_lens AssertionError (field_point 1 2 PInf 0) 101 True 4096 = Inl AssertionError
   \<and> fixed_psf_radial 1 (failing_lens AssertionError) 2 PInf 101 True ''psf_radial.png'' world0
       = (Inl AssertionError, world0)"
proof -
  have a: "\<forall>p k r s. \<exists>psf. const_lens two_pixels p k r s = Inr psf \<and> data psf \<noteq> []
             \<and> shape psf = [2]"
    by (simp add: const_lens_def two_pixels_def)
  have b: "failing_lens AssertionError (field_point 1 2 PInf 0) 101 True 4096 = Inl AssertionError"
    by (simp add: failing_lens_def)
  show ?thesis
    using fixed_psf_radial_success_or_raise[of 2 "const_lens two_pixels" "[2]" 1 PInf 101 True
            "''psf_radial.png''" world0 "failing_lens AssertionError"] a b
    by simp
qed

text \<open>
  Claim C8. \<open>fixed_psf_radial\<close> builds exactly \<open>M\<close> field points whose x and y coordinates
  are evenly spaced over \<open>[0, 1]\<close> (from 0 to 1 in steps of \<open>1 / (M - 1)\<close>) and whose z
  coordinate is \<open>depth\<close>; for each it requests the PSF with recentering and 4096 samples
  and divides it by its own maximum (and applies the log-scale step when \<open>log_scale\<close> is
  set); the \<open>M\<close> results are tiled with \<open>nrow = M\<close>, padding 1 and padding value 0, the
  grid is saved under \<open>save_name\<close>, and \<open>save_name\<close> is returned. The lens is assumed to
  return non-empty PSFs of one shape at these points.
\<close>

theorem fixed_psf_radial_pipeline:
  assumes "0 < M"
    and "\<forall>i<nat M. \<exists>psf. lens (field_point 1 M depth i) ks True 4096 = Inr psf
                          \<and> data psf \<noteq> [] \<and> shape psf = shp"
  shows "\<exists>xs psfs.
           linspace 0 1 M = Inr xs \<and> length (field_points xs xs depth) = nat M
         \<and> (\<forall>i<nat M. field_points xs xs depth ! i
                = \<lparr>shape = [3], data = [Fin (field_coord 1 M i), Fin (field_coord 1 M i), depth]\<rparr>)
         \<and> field_coord 1 M 0 = 0
         \<and> (1 < M \<longrightarrow> field_coord 1 M (nat M - 1) = 1
                \<and> (\<forall>i. field_coord 1 M (Suc i) - field_coord 1 M i = 1 / real_of_int (M - 1)))
         \<and> fixed_psf_radial eps lens M depth ks ls save_name w =
           (Inr save_name,
            w\<lparr>images := (images w)(save_name \<mapsto>
                  \<lparr>saved_grid = \<lparr>tiles = psfs, nrow = M, padding = 1, pad_value = Fin 0\<rparr>,
                   saved_normalize = True\<rparr>),
              printed := printed w @ [''PSF radial has been saved to '' @ save_name]\<rparr>)
         \<and> length psfs = nat M
         \<and> (\<forall>i<nat M. \<exists>psf m. lens (field_points xs xs depth ! i) ks True 4096 = Inr psf
                \<and> tmax psf = Inr m
                \<and> (if ls then log_scale_step eps (tmap (\<lambda>x. fdiv x m) psf) = Inr (psfs ! i)
                    else psfs ! i = tmap (\<lambda>x. fdiv x m) psf))"
proof -
  let ?xs = "map (\<lambda>i. Fin (field_coord 1 M i)) [0..<nat M]"
  have M0: "0 \<le> M" using assms(1) by simp
  have lin: "linspace 0 1 M = Inr ?xs" by (rule linspace_from_zero[OF M0])
  have pts: "field_points ?xs ?xs depth = map (field_point 1 M depth) [0..<nat M]"
    by (rule field_points_eq)
  have pt: "\<forall>i<nat M. field_points ?xs ?xs depth ! i = field_point 1 M depth i"
    by (simp add: pts)
  have c0: "field_coord 1 M 0 = 0" by (simp add: field_coord_def)
  have c1: "1 < M \<longrightarrow> field_coord 1 M (nat M - 1) = 1
                \<and> (\<forall>i. field_coord 1 M (Suc i) - field_coord 1 M i = 1 / real_of_int (M - 1))"
  proof
    assume m: "1 < M"
    have "real (nat M - 1) = real_of_int (M - 1)" using m by (simp add: of_nat_diff)
    then have "field_coord 1 M (nat M - 1) = 1" using m by (simp add: field_coord_def)
    moreover have "\<forall>i. field_coord 1 M (Suc i) - field_coord 1 M i = 1 / real_of_int (M - 1)"
      using m by (simp add: field_coord_def diff_divide_distrib[symmetric])
    ultimately show "field_coord 1 M (nat M - 1) = 1
                \<and> (\<forall>i. field_coord 1 M (Suc i) - field_coord 1 M i = 1 / real_of_int (M - 1))"
      by simp
  qed
  from fixed_psf_radial_success[of M lens depth ks shp eps ls save_name w] assms
  obtain psfs where res: "fixed_psf_radial eps lens M depth ks ls save_name w =
           (Inr save_name,
            w\<lparr>images := (images w)(save_name \<mapsto>
                  \<lparr>saved_grid = \<lparr>tiles = psfs, nrow = M, padding = 1, pad_value = Fin 0\<rparr>,
                   saved_normalize = True\<rparr>),
              printed := printed w @ [''PSF radial has been saved to '' @ save_name]\<rparr>)"
    and len: "length psfs = nat M"
    and one: "\<forall>i<nat M. ebind (lens (field_point 1 M depth i) ks True 4096) (normalize_psf eps ls)
                         = Inr (psfs ! i)" by blast
  have each: "\<forall>i<nat M. \<exists>psf m. lens (field_points ?xs ?xs depth ! i) ks True 4096 = Inr psf
                \<and> tmax psf = Inr m
                \<and> (if ls then log_scale_step eps (tmap (\<lambda>x. fdiv x m) psf) = Inr (psfs ! i)
                    else psfs ! i = tmap (\<lambda>x. fdiv x m) psf)"
  proof (intro allI impI)
    fix i assume i: "i < nat M"
    then obtain psf where p: "lens (field_point 1 M depth i) ks True 4096 = Inr psf"
      "data psf \<noteq> []" using assms(2) by blast
    obtain m where m: "tmax psf = Inr m" using tmax_nonempty[OF p(2)] by blast
    have "ebind (lens (field_point 1 M depth i) ks True 4096) (normalize_psf eps ls)
            = Inr (psfs ! i)" using one i by blast
    then have "normalize_psf eps ls psf = Inr (psfs ! i)" by (simp add: p(1) ebind_def)
    then have "(if ls then log_scale_step eps (tmap (\<lambda>x. fdiv x m) psf) = Inr (psfs ! i)
                    else psfs ! i = tmap (\<lambda>x. fdiv x m) psf)"
      unfolding normalize_psf_unfold[OF m] by (auto split: if_splits)
    then show "\<exists>psf m. lens (field_points ?xs ?xs depth ! i) ks True 4096 = Inr psf
                \<and> tmax psf = Inr m
                \<and> (if ls then log_scale_step eps (tmap (\<lambda>x. fdiv x m) psf) = Inr (psfs ! i)
                    else psfs ! i = tmap (\<lambda>x. fdiv x m) psf)"
      using p(1) m pt i by auto
  qed
  have len_pts: "length (field_points ?xs ?xs depth) = nat M" by (simp add: pts)
  have pt': "\<forall>i<nat M. field_points ?xs ?xs depth ! i
                = \<lparr>shape = [3], data = [Fin (field_coord 1 M i), Fin (field_coord 1 M i), depth]\<rparr>"
    using pt by (simp add: field_point_def)
  show ?thesis
    using lin len_pts pt' c0 c1 res len each
    by (intro exI[of _ ?xs] exI[of _ psfs]) blast
qed

lemma tmax_two_pixels: "tmax two_pixels = Inr (Fin 1)"
  by (simp add: tmax_def two_pixels_def fmax2_def)

lemma div_one_two_pixels: "tmap (\<lambda>x. fdiv x (Fin 1)) two_pixels = two_pixels"
  by (simp add: tmap_def two_pixels_def)

theorem fixed_psf_radial_pipeline_witness:
  "(0::int) < 2
   \<and> const_lens two_pixels (field_point 1 2 PInf 1) 101 True 4096 = Inr two_pixels
   \<and> fixed_psf_radial 1 (const_lens two_pixels) 2 PInf 101 False ''psf_radial.png'' world0
       = (Inr ''psf_radial.png'',
          \<lparr>images = [''psf_radial.png'' \<mapsto>
               \<lparr>saved_grid = \<lparr>tiles = [two_pixels, two_pixels], nrow = 2, padding = 1,
                               pad_value = Fin 0\<rparr>,
                saved_normalize = True\<rparr>],
           printed = [''PSF radial has been saved to psf_radial.png'']\<rparr>)"
proof -
  have M: "(0::int) < 2" by simp
  have h: "\<forall>i<nat 2. \<exists>psf. const_lens two_pixels (field_point 1 2 PInf i) 101 True 4096 = Inr psf
              \<and> data psf \<noteq> [] \<and> shape psf = [2]"
    by (simp add: const_lens_def two_pixels_def)
  from fixed_psf_radial_pipeline[where M = 2 and lens = "const_lens two_pixels" and depth = PInf
         and ks = 101 and shp = "[2]" and eps = 1 and ls = False
         and save_name = "''psf_radial.png''" and w = world0] M h
  obtain xs psfs where
    res: "fixed_psf_radial 1 (const_lens two_pixels) 2 PInf 101 False ''psf_radial.png'' world0 =
           (Inr ''psf_radial.png'',
            world0\<lparr>images := (images world0)(''psf_radial.png'' \<mapsto>
                  \<lparr>saved_grid = \<lparr>tiles = psfs, nrow = 2, padding = 1, pad_value = Fin 0\<rparr>,
                   saved_normalize = True\<rparr>),
              printed := printed world0 @ [''PSF radial has been saved to '' @ ''psf_radial.png'']\<rparr>)"
    and len: "length psfs = nat 2"
    and each: "\<forall>i<nat 2. \<exists>psf m. const_lens two_pixels (field_points xs xs PInf ! i) 101 True 4096 = Inr psf
                \<and> tmax psf = Inr m
                \<and> (if False then log_scale_step 1 (tmap (\<lambda>x. fdiv x m) psf) = Inr (psfs ! i)
                    else psfs ! i = tmap (\<lambda>x. fdiv x m) psf)"
    by blast
  have e: "\<forall>i<2. psfs ! i = two_pixels"
  proof (intro allI impI)
    fix i :: nat assume "i < 2"
    then obtain psf m where "const_lens two_pixels (field_points xs xs PInf ! i) 101 True 4096 = Inr psf"
      "tmax psf = Inr m" "psfs ! i = tmap (\<lambda>x. fdiv x m) psf"
      using each by auto
    then have "psf = two_pixels" "m = Fin 1" "psfs ! i = tmap (\<lambda>x. fdiv x m) psf"
      by (auto simp: const_lens_def tmax_two_pixels)
    then show "psfs ! i = two_pixels"
      by (simp add: div_one_two_pixels)
  qed
  have "psfs = [two_pixels, two_pixels]"
    using len e by (intro nth_equalityI) (auto simp: nth_Cons split: nat.splits)
  then show ?thesis
    using res by (simp add: world0_def const_lens_def)
qed

lemma log_two_pixels: "log_scale_step 1 two_pixels = Inr two_pixels"
  by (simp add: log_scale_step_def two_pixels_def tmap_def tmin_def tmax_def ebind_def
                fmin2_def fmax2_def fsub_def)

lemma logs_two_pixels:
  "data (tmap (\<lambda>x. flog (fadd x (Fin 1))) two_pixels) = [Fin (ln 2), Fin 0]"
  by (simp add: tmap_def two_pixels_def)

lemma logs_flat_psf:
  "data (tmap (\<lambda>x. flog (fadd x (Fin 1))) flat_psf) = [Fin (ln 2), Fin (ln 2)]"
  by (simp add: tmap_def flat_psf_def)

lemma log_flat_psf: "log_scale_step 1 flat_psf = Inr \<lparr>shape = [2], data = [NaN, NaN]\<rparr>"
  by (simp add: log_scale_step_def flat_psf_def tmap_def tmin_def tmax_def
                ebind_def fmin2_def fmax2_def fsub_def)

theorem log_scale_step_range_witness:
  "data (tmap (\<lambda>x. flog (fadd x (Fin 1))) two_pixels) = [Fin (ln 2), Fin 0]
   \<and> Fin (ln 2) \<noteq> Fin 0
   \<and> log_scale_step 1 two_pixels = Inr two_pixels
   \<and> tmin two_pixels = Inr (Fin 0) \<and> tmax two_pixels = Inr (Fin 1)
   \<and> data flat_psf = [Fin 1, Fin 1]
   \<and> data (tmap (\<lambda>x. flog (fadd x (Fin 1))) flat_psf) = [Fin (ln 2), Fin (ln 2)]
   \<and> log_scale_step 1 flat_psf = Inr \<lparr>shape = [2], data = [NaN, NaN]\<rparr>
   \<and> tmin \<lparr>shape = [2], data = [NaN, NaN]\<rparr> = Inr NaN
   \<and> tmax \<lparr>shape = [2], data = [NaN, NaN]\<rparr> = Inr NaN"
proof -
  let ?L = "data (tmap (\<lambda>x. flog (fadd x (Fin 1))) two_pixels)"
  let ?K = "data (tmap (\<lambda>x. flog (fadd x (Fin 1))) flat_psf)"
  have fL: "\<forall>y\<in>set ?L. is_finite y" by (simp add: logs_two_pixels)
  have fK: "\<forall>y\<in>set ?K. is_finite y" by (simp add: logs_flat_psf)
  have ne: "Fin (ln 2) \<noteq> Fin 0" by simp
  have dL: "\<exists>y\<in>set ?L. \<exists>z\<in>set ?L. y \<noteq> z"
    unfolding logs_two_pixels
    by (rule bexI[of _ "Fin (ln 2)"], rule bexI[of _ "Fin 0"]) simp_all
  have cK: "data flat_psf \<noteq> [] \<and> (\<forall>x\<in>set (data flat_psf). \<forall>y\<in>set (data flat_psf). x = y)"
    by (simp add: flat_psf_def)
  from log_scale_step_range[OF refl fL, THEN conjunct1, THEN mp, OF dL]
  obtain out where o: "log_scale_step 1 two_pixels = Inr out"
    "tmin out = Inr (Fin 0)" "tmax out = Inr (Fin 1)" by blast
  have "out = two_pixels" using o(1) log_two_pixels by simp
  then have 1: "tmin two_pixels = Inr (Fin 0)" "tmax two_pixels = Inr (Fin 1)"
    using o by simp_all
  from log_scale_step_range[OF refl fK, THEN conjunct2, THEN conjunct2, THEN conjunct1,
                             THEN mp, OF cK]
  obtain out' where o': "log_scale_step 1 flat_psf = Inr out'"
    "tmin out' = Inr NaN" "tmax out' = Inr NaN" by blast
  have "out' = \<lparr>shape = [2], data = [NaN, NaN]\<rparr>" using o'(1) log_flat_psf by simp
  then have 2: "tmin \<lparr>shape = [2], data = [NaN, NaN]\<rparr> = Inr NaN"
    "tmax \<lparr>shape = [2], data = [NaN, NaN]\<rparr> = Inr NaN" using o' by simp_all
  have d: "data flat_psf = [Fin 1, Fin 1]" by (simp add: flat_psf_def)
  show ?thesis
    by (intro conjI logs_two_pixels ne log_two_pixels 1 d logs_flat_psf log_flat_psf 2)
qed

text \<open>
  The claim as the specification words it fails on a constant PSF with positive maximum:
  after the logarithm all entries are equal, the rescaling divides \<open>0\<close> by \<open>0\<close>, and every
  entry, the minimum and the maximum are NaN.
\<close>

theorem log_scale_step_range_counterexample:
  "tmax flat_psf = Inr (Fin 1)
   \<and> log_scale_step 1 flat_psf = Inr \<lparr>shape = [2], data = [NaN, NaN]\<rparr>
   \<and> normalize_psf 1 True flat_psf = Inr \<lparr>shape = [2], data = [NaN, NaN]\<rparr>
   \<and> tmin \<lparr>shape = [2], data = [NaN, NaN]\<rparr> = Inr NaN
   \<and> tmax \<lparr>shape = [2], data = [NaN, NaN]\<rparr> = Inr NaN"
  by (simp add: log_scale_step_def normalize_psf_def flat_psf_def tmap_def tmin_def tmax_def
                ebind_def fmin2_def fmax2_def fsub_def)

section \<open>Properties of the robust PSF plotter\<close>

lemma concat_rows_nth:
  "\<forall>row\<in>set rows. length row = n \<Longrightarrow> r < length rows \<Longrightarrow> c < n \<Longrightarrow>
   concat rows ! (r * n + c) = rows ! r ! c"
proof (induction rows arbitrary: r)
  case Nil
  then show ?case by simp
next
  case (Cons row rows)
  show ?case
  proof (cases r)
    case 0
    then show ?thesis using Cons.prems by (simp add: nth_append)
  next
    case (Suc r')
    have "Suc r' * n + c = length row + (r' * n + c)" using Cons.prems(1) by simp
    then have "concat (row # rows) ! (r * n + c) = concat rows ! (r' * n + c)"
      using Suc by (simp add: nth_append)
    then show ?thesis using Cons.IH[of r'] Cons.prems Suc by simp
  qed
qed

lemma concat_rows_length:
  "\<forall>row\<in>set rows. length row = n \<Longrightarrow> length (concat rows) = length rows * n"
  by (induction rows) simp_all

lemma foldl_fadd_Fin: "foldl fadd (Fin a) (map Fin xs) = Fin (a + sum_list xs)"
  by (induction xs arbitrary: a) (simp_all add: add.assoc)

lemma sum_list_divide: "sum_list (map (\<lambda>v. v / S) xs) = sum_list xs / (S::real)"
  by (induction xs) (simp_all add: add_divide_distrib)

lemma sum_list_pos: "\<forall>x\<in>set xs. 0 < x \<Longrightarrow> xs \<noteq> [] \<Longrightarrow> 0 < sum_list (xs::real list)"
proof (induction xs)
  case Nil
  then show ?case by simp
next
  case (Cons x xs)
  then show ?case by (cases "xs = []") (auto intro: add_pos_pos)
qed

lemma gaussian_raw_data: "data (gaussian_raw i ks) = map Fin (gauss_values i ks)"
  by (simp add: gaussian_raw_def gauss_values_def gauss_value_def Let_def map_concat comp_def)

lemma gauss_values_length: "length (gauss_values i ks) = nat ks * nat ks"
  unfolding gauss_values_def by (subst concat_rows_length[where n = "nat ks"]) auto

lemma gauss_values_nth:
  "r < nat ks \<Longrightarrow> c < nat ks \<Longrightarrow> gauss_values i ks ! (r * nat ks + c) = gauss_value i ks r c"
  unfolding gauss_values_def by (subst concat_rows_nth[where n = "nat ks"]) auto

lemma gauss_values_pos: "\<forall>v\<in>set (gauss_values i ks). 0 < v"
  by (auto simp: gauss_values_def gauss_value_def)

lemma gaussian_2d_ok:
  fixes i :: nat and ks :: int
  assumes "0 < ks" and S: "S = sum_list (gauss_values i ks)"
  shows "0 < S"
    and "gaussian_2d i ks =
           Inr \<lparr>shape = [nat ks, nat ks], data = map (\<lambda>v. Fin (v / S)) (gauss_values i ks)\<rparr>"
    and "tsum \<lparr>shape = [nat ks, nat ks], data = map (\<lambda>v. Fin (v / S)) (gauss_values i ks)\<rparr> = Fin 1"
proof -
  have ne: "gauss_values i ks \<noteq> []"
    using gauss_values_length[of i ks] assms(1) by auto
  show pos: "0 < S" unfolding S by (rule sum_list_pos[OF gauss_values_pos ne])
  have ts: "tsum (gaussian_raw i ks) = Fin S"
    by (simp add: tsum_def gaussian_raw_data foldl_fadd_Fin S)
  have sh: "shape (gaussian_raw i ks) = [nat ks, nat ks]" by (simp add: gaussian_raw_def Let_def)
  have "tmap (\<lambda>x. fdiv x (Fin S)) (gaussian_raw i ks)
          = \<lparr>shape = [nat ks, nat ks], data = map (\<lambda>v. Fin (v / S)) (gauss_values i ks)\<rparr>"
    using pos sh by (simp add: tmap_def gaussian_raw_data comp_def)
  then show "gaussian_2d i ks =
           Inr \<lparr>shape = [nat ks, nat ks], data = map (\<lambda>v. Fin (v / S)) (gauss_values i ks)\<rparr>"
    using assms(1) by (simp add: gaussian_2d_def Let_def ts)
  have "map (\<lambda>v. Fin (v / S)) (gauss_values i ks) = map Fin (map (\<lambda>v. v / S) (gauss_values i ks))"
    by simp
  then have "tsum \<lparr>shape = [nat ks, nat ks], data = map (\<lambda>v. Fin (v / S)) (gauss_values i ks)\<rparr>
               = Fin (0 + sum_list (map (\<lambda>v. v / S) (gauss_values i ks)))"
    unfolding tsum_def by (simp only: tensor.simps foldl_fadd_Fin)
  also have "\<dots> = Fin 1" using pos by (simp add: sum_list_divide S[symmetric])
  finally show "tsum \<lparr>shape = [nat ks, nat ks], data = map (\<lambda>v. Fin (v / S)) (gauss_values i ks)\<rparr> = Fin 1" .
qed

lemma gaussian_placeholder_ok:
  assumes "0 < ks"
  shows "\<exists>g S. gaussian_placeholder i ks = Inr (stack3 g g g)
           \<and> shape (stack3 g g g) = [3, nat ks, nat ks]
           \<and> data (stack3 g g g) \<noteq> []
           \<and> length (data g) = nat ks * nat ks
           \<and> tsum g = Fin 1 \<and> 0 < S
           \<and> (\<forall>r<nat ks. \<forall>c<nat ks.
                 data g ! (r * nat ks + c) =
                   Fin (exp (- real_of_int ((int c - ks div 2)\<^sup>2 + (int r - ks div 2)\<^sup>2)
                             / (2 * (2.0 + real i * 1.5)\<^sup>2)) / S))"
proof -
  define S where "S = sum_list (gauss_values i ks)"
  define g where "g = \<lparr>shape = [nat ks, nat ks], data = map (\<lambda>v. Fin (v / S)) (gauss_values i ks)\<rparr>"
  have S: "0 < S" and g: "gaussian_2d i ks = Inr g" and ts: "tsum g = Fin 1"
    using gaussian_2d_ok[OF assms S_def] unfolding g_def by auto
  have len: "length (data g) = nat ks * nat ks" by (simp add: g_def gauss_values_length)
  have ne: "data (stack3 g g g) \<noteq> []" using len assms by (auto simp: stack3_def)
  have el: "\<forall>r<nat ks. \<forall>c<nat ks.
                 data g ! (r * nat ks + c) =
                   Fin (exp (- real_of_int ((int c - ks div 2)\<^sup>2 + (int r - ks div 2)\<^sup>2)
                             / (2 * (2.0 + real i * 1.5)\<^sup>2)) / S)"
  proof (intro allI impI)
    fix r c assume rc: "r < nat ks" "c < nat ks"
    have "r * nat ks + c < nat ks * nat ks"
    proof -
      have "r * nat ks + c < r * nat ks + nat ks" using rc by simp
      also have "\<dots> = Suc r * nat ks" by simp
      also have "\<dots> \<le> nat ks * nat ks" using rc(1) by (intro mult_le_mono1) simp
      finally show ?thesis .
    qed
    then have "data g ! (r * nat ks + c) = Fin (gauss_values i ks ! (r * nat ks + c) / S)"
      by (simp add: g_def gauss_values_length)
    then show "data g ! (r * nat ks + c) =
                   Fin (exp (- real_of_int ((int c - ks div 2)\<^sup>2 + (int r - ks div 2)\<^sup>2)
                             / (2 * (2.0 + real i * 1.5)\<^sup>2)) / S)"
      by (simp only: gauss_values_nth[OF rc] gauss_value_def)
  qed
  have "gaussian_placeholder i ks = Inr (stack3 g g g)"
    by (simp add: gaussian_placeholder_def g ebind_def)
  moreover have "shape (stack3 g g g) = [3, nat ks, nat ks]" by (simp add: stack3_def g_def)
  ultimately show ?thesis using ne len ts S el by blast
qed

lemma robust_psf_first:
  "lens p ks True 4096 = Inr psf \<Longrightarrow> robust_psf lens p i ks = (Inr psf, [])"
  by (simp add: robust_psf_def)

lemma robust_psf_retry:
  "lens p ks True 4096 = Inl AssertionError \<Longrightarrow> lens p ks False 4096 = Inr psf \<Longrightarrow>
   robust_psf lens p i ks =
     (Inr psf, [''Trying without recentering for field point '' @ str_nat i])"
  by (simp add: robust_psf_def)

lemma robust_psf_placeholder:
  "lens p ks True 4096 = Inl AssertionError \<Longrightarrow> lens p ks False 4096 = Inl e \<Longrightarrow>
   robust_psf lens p i ks =
     (gaussian_placeholder i ks,
      [''Trying without recentering for field point '' @ str_nat i,
       ''Creating placeholder Gaussian PSF for field point '' @ str_nat i])"
  by (simp add: robust_psf_def)

lemma robust_psf_other:
  "lens p ks True 4096 \<noteq> Inl AssertionError \<Longrightarrow>
   robust_psf lens p i ks = (lens p ks True 4096, [])"
  by (cases "lens p ks True 4096") (simp_all add: robust_psf_def)

lemma robust_psf_good:
  assumes "0 < ks"
    and "(\<exists>psf. lens p ks True 4096 = Inr psf \<and> data psf \<noteq> [] \<and> shape psf = [3, nat ks, nat ks])
       \<or> (lens p ks True 4096 = Inl AssertionError
          \<and> ((\<exists>psf. lens p ks False 4096 = Inr psf \<and> data psf \<noteq> []
                    \<and> shape psf = [3, nat ks, nat ks])
             \<or> (\<exists>e. lens p ks False 4096 = Inl e)))"
  shows "\<exists>psf0. fst (robust_psf lens p i ks) = Inr psf0 \<and> data psf0 \<noteq> []
            \<and> shape psf0 = [3, nat ks, nat ks]"
proof -
  from assms(2) consider
    (a) psf where "lens p ks True 4096 = Inr psf" "data psf \<noteq> []" "shape psf = [3, nat ks, nat ks]"
  | (b) psf where "lens p ks True 4096 = Inl AssertionError" "lens p ks False 4096 = Inr psf"
      "data psf \<noteq> []" "shape psf = [3, nat ks, nat ks]"
  | (c) e where "lens p ks True 4096 = Inl AssertionError" "lens p ks False 4096 = Inl e"
    by blast
  then show ?thesis
  proof cases
    case a
    then show ?thesis by (simp add: robust_psf_first)
  next
    case b
    then show ?thesis by (simp add: robust_psf_retry)
  next
    case c
    obtain g S where "gaussian_placeholder i ks = Inr (stack3 g g g)"
      "shape (stack3 g g g) = [3, nat ks, nat ks]" "data (stack3 g g g) \<noteq> []"
      using gaussian_placeholder_ok[OF assms(1), of i] by blast
    then show ?thesis using c by (simp add: robust_psf_placeholder)
  qed
qed

text \<open>The loop over a concatenation of index lists.\<close>

lemma robust_loop_append:
  "robust_loop lens ks eps ls pts (xs @ ys) =
     (case robust_loop lens ks eps ls pts xs of
        (Inl e, out) \<Rightarrow> (Inl e, out)
      | (Inr a, out) \<Rightarrow>
          (case robust_loop lens ks eps ls pts ys of
             (Inl e, out') \<Rightarrow> (Inl e, out @ out')
           | (Inr b, out') \<Rightarrow> (Inr (a @ b), out @ out')))"
proof (induction xs)
  case Nil
  then show ?case by (simp split: prod.splits sum.splits)
next
  case (Cons x xs)
  then show ?case by (simp split: prod.splits sum.splits)
qed

lemma robust_loop_raises_at:
  assumes "robust_loop lens ks eps ls pts xs = (Inr a, out)"
    and "robust_psf lens (pts ! i) i ks = (Inl e, out')"
  shows "robust_loop lens ks eps ls pts (xs @ i # ys) = (Inl e, out @ out')"
  by (simp add: robust_loop_append assms)

lemma robust_loop_success:
  assumes "\<forall>i\<in>set is. \<exists>psf0. fst (robust_psf lens (pts ! i) i ks) = Inr psf0 \<and> data psf0 \<noteq> []
                        \<and> shape psf0 = shp"
  shows "\<exists>psfs out. robust_loop lens ks eps ls pts is = (Inr psfs, out)
           \<and> length psfs = length is \<and> (\<forall>t\<in>set psfs. shape t = shp)"
  using assms
proof (induction "is")
  case Nil
  then show ?case by simp
next
  case (Cons i "is")
  obtain psf0 where p: "fst (robust_psf lens (pts ! i) i ks) = Inr psf0" "data psf0 \<noteq> []"
    "shape psf0 = shp" using Cons.prems by auto
  obtain out0 where r: "robust_psf lens (pts ! i) i ks = (Inr psf0, out0)"
    using p(1) by (cases "robust_psf lens (pts ! i) i ks") auto
  obtain psf where n: "normalize_psf eps ls psf0 = Inr psf" "shape psf = shape psf0"
    using normalize_psf_ok[OF p(2)] by blast
  obtain psfs out where l: "robust_loop lens ks eps ls pts is = (Inr psfs, out)"
    "length psfs = length is" "\<forall>t\<in>set psfs. shape t = shp"
    using Cons.IH Cons.prems by auto
  have "robust_loop lens ks eps ls pts (i # is) = (Inr (psf # psfs), out0 @ out)"
    by (simp add: r n l)
  then show ?case using l n p(3) by auto
qed

lemma robust_psf_radial_unfold:
  assumes "0 \<le> M"
  shows "robust_psf_radial eps lens M depth ks ls save_name w =
     (case robust_loop lens ks eps ls (map (field_point 0.7 M depth) [0..<nat M]) [0..<nat M] of
        (Inl e, out) \<Rightarrow> (Inl e, w\<lparr>printed := printed w @ out\<rparr>)
      | (Inr psfs, out) \<Rightarrow>
          (case make_grid psfs M 1 (Fin 0) of
             Inl e \<Rightarrow> (Inl e, w\<lparr>printed := printed w @ out\<rparr>)
           | Inr psf_grid \<Rightarrow>
               (Inr save_name,
                (save_image psf_grid save_name True w)
                  \<lparr>printed := printed w @ out
                     @ [''PSF radial has been saved to '' @ save_name]\<rparr>)))"
  unfolding robust_psf_radial_def
  by (simp add: linspace_from_zero[OF assms] ebind_def field_points_eq)

lemma robust_psf_radial_complete:
  assumes "0 < M" and "0 < ks"
    and "\<forall>j<nat M.
          (\<exists>psf. lens (field_point 0.7 M depth j) ks True 4096 = Inr psf \<and> data psf \<noteq> []
                 \<and> shape psf = [3, nat ks, nat ks])
        \<or> (lens (field_point 0.7 M depth j) ks True 4096 = Inl AssertionError
           \<and> ((\<exists>psf. lens (field_point 0.7 M depth j) ks False 4096 = Inr psf \<and> data psf \<noteq> []
                     \<and> shape psf = [3, nat ks, nat ks])
              \<or> (\<exists>e. lens (field_point 0.7 M depth j) ks False 4096 = Inl e)))"
  shows "\<exists>psfs. fst (robust_psf_radial eps lens M depth ks ls save_name w) = Inr save_name
           \<and> images (snd (robust_psf_radial eps lens M depth ks ls save_name w)) save_name
               = Some \<lparr>saved_grid = \<lparr>tiles = psfs, nrow = M, padding = 1, pad_value = Fin 0\<rparr>,
                       saved_normalize = True\<rparr>
           \<and> length psfs = nat M"
proof -
  let ?pts = "map (field_point 0.7 M depth) [0..<nat M]"
  have M0: "0 \<le> M" using assms(1) by simp
  have "\<forall>i\<in>set [0..<nat M]. \<exists>psf0. fst (robust_psf lens (?pts ! i) i ks) = Inr psf0
           \<and> data psf0 \<noteq> [] \<and> shape psf0 = [3, nat ks, nat ks]"
  proof
    fix i assume "i \<in> set [0..<nat M]"
    then have i: "i < nat M" by simp
    then have pt: "?pts ! i = field_point 0.7 M depth i" by simp
    show "\<exists>psf0. fst (robust_psf lens (?pts ! i) i ks) = Inr psf0
           \<and> data psf0 \<noteq> [] \<and> shape psf0 = [3, nat ks, nat ks]"
      unfolding pt using assms(3) i by (intro robust_psf_good[OF assms(2)]) blast
  qed
  from robust_loop_success[OF this, of eps ls]
  obtain psfs out where l: "robust_loop lens ks eps ls ?pts [0..<nat M] = (Inr psfs, out)"
    "length psfs = length [0..<nat M]" "\<forall>t\<in>set psfs. shape t = [3, nat ks, nat ks]" by blast
  have ne: "psfs \<noteq> []" using l(2) assms(1) by auto
  have grid: "make_grid psfs M 1 (Fin 0)
                = Inr \<lparr>tiles = psfs, nrow = M, padding = 1, pad_value = Fin 0\<rparr>"
    by (rule make_grid_ok[OF ne l(3)])
  have "robust_psf_radial eps lens M depth ks ls save_name w =
          (Inr save_name,
           (save_image \<lparr>tiles = psfs, nrow = M, padding = 1, pad_value = Fin 0\<rparr> save_name True w)
             \<lparr>printed := printed w @ out @ [''PSF radial has been saved to '' @ save_name]\<rparr>)"
    unfolding robust_psf_radial_unfold[OF M0] l(1) by (simp only: prod.case sum.case grid)
  then show ?thesis using l(2) by (intro exI[of _ psfs]) (simp add: save_image_def)
qed

lemma robust_psf_radial_aborts:
  assumes "0 \<le> M" and "i < nat M"
    and "robust_loop lens ks eps ls (map (field_point 0.7 M depth) [0..<nat M]) [0..<i]
           = (Inr psfs, out)"
    and "lens (field_point 0.7 M depth i) ks True 4096 = Inl e" and "e \<noteq> AssertionError"
  shows "robust_psf_radial eps lens M depth ks ls save_name w
           = (Inl e, w\<lparr>printed := printed w @ out\<rparr>)"
proof -
  let ?pts = "map (field_point 0.7 M depth) [0..<nat M]"
  have pt: "?pts ! i = field_point 0.7 M depth i" using assms(2) by simp
  have "lens (?pts ! i) ks True 4096 \<noteq> Inl AssertionError" using assms(4,5) pt by simp
  then have r: "robust_psf lens (?pts ! i) i ks = (Inl e, [])"
    using robust_psf_other[of lens "?pts ! i" ks i] assms(4) pt by simp
  have split: "[0..<nat M] = [0..<i] @ i # [Suc i..<nat M]"
    using assms(2) by (metis le0 less_imp_le_nat upt_add_eq_append upt_conv_Cons le_add_diff_inverse)
  have "robust_loop lens ks eps ls ?pts ([0..<i] @ i # [Suc i..<nat M]) = (Inl e, out @ [])"
    by (rule robust_loop_raises_at[OF assms(3) r])
  then have "robust_loop lens ks eps ls ?pts [0..<nat M] = (Inl e, out)"
    using split by simp
  then show ?thesis
    unfolding robust_psf_radial_unfold[OF assms(1)] by simp
qed

lemma robust_loop_tiles:
  assumes "\<forall>i\<in>set is. \<exists>psf0. fst (robust_psf lens (pts ! i) i ks) = Inr psf0 \<and> data psf0 \<noteq> []
                        \<and> shape psf0 = shp"
  shows "\<exists>psfs out. robust_loop lens ks eps ls pts is = (Inr psfs, out)
           \<and> length psfs = length is \<and> (\<forall>t\<in>set psfs. shape t = shp)
           \<and> (\<forall>k<length is. \<exists>psf0. fst (robust_psf lens (pts ! (is ! k)) (is ! k) ks) = Inr psf0
                                 \<and> normalize_psf eps ls psf0 = Inr (psfs ! k))"
  using assms
proof (induction "is")
  case Nil
  then show ?case by simp
next
  case (Cons i "is")
  obtain psf0 where p: "fst (robust_psf lens (pts ! i) i ks) = Inr psf0" "data psf0 \<noteq> []"
    "shape psf0 = shp" using Cons.prems by auto
  obtain out0 where r: "robust_psf lens (pts ! i) i ks = (Inr psf0, out0)"
    using p(1) by (cases "robust_psf lens (pts ! i) i ks") auto
  obtain psf where n: "normalize_psf eps ls psf0 = Inr psf" "shape psf = shape psf0"
    using normalize_psf_ok[OF p(2)] by blast
  have "\<forall>i\<in>set is. \<exists>psf0. fst (robust_psf lens (pts ! i) i ks) = Inr psf0 \<and> data psf0 \<noteq> []
                        \<and> shape psf0 = shp" using Cons.prems by simp
  from Cons.IH[OF this]
  obtain psfs out where l: "robust_loop lens ks eps ls pts is = (Inr psfs, out)"
    "length psfs = length is" "\<forall>t\<in>set psfs. shape t = shp"
    "\<forall>k<length is. \<exists>psf0. fst (robust_psf lens (pts ! (is ! k)) (is ! k) ks) = Inr psf0
                                 \<and> normalize_psf eps ls psf0 = Inr (psfs ! k)"
    by blast
  have loop: "robust_loop lens ks eps ls pts (i # is) = (Inr (psf # psfs), out0 @ out)"
    by (simp add: r n l(1))
  have each: "\<forall>k<length (i # is). \<exists>psf0.
                 fst (robust_psf lens (pts ! ((i # is) ! k)) ((i # is) ! k) ks) = Inr psf0
                 \<and> normalize_psf eps ls psf0 = Inr ((psf # psfs) ! k)"
  proof (intro allI impI)
    fix k assume k: "k < length (i # is)"
    show "\<exists>psf0. fst (robust_psf lens (pts ! ((i # is) ! k)) ((i # is) ! k) ks) = Inr psf0
                 \<and> normalize_psf eps ls psf0 = Inr ((psf # psfs) ! k)"
    proof (cases k)
      case 0
      then show ?thesis using p(1) n(1) by simp
    next
      case (Suc k')
      then have "k' < length is" using k by simp
      then show ?thesis using l(4) Suc by simp
    qed
  qed
  have sh: "\<forall>t\<in>set (psf # psfs). shape t = shp" using l(3) n(2) p(3) by simp
  have len: "length (psf # psfs) = length (i # is)" using l(2) by simp
  show ?case using loop len sh each by blast
qed

lemma robust_psf_radial_tiles:
  assumes "0 < M" and "0 < ks"
    and "\<forall>j<nat M.
          (\<exists>psf. lens (field_point 0.7 M depth j) ks True 4096 = Inr psf \<and> data psf \<noteq> []
                 \<and> shape psf = [3, nat ks, nat ks])
        \<or> (lens (field_point 0.7 M depth j) ks True 4096 = Inl AssertionError
           \<and> ((\<exists>psf. lens (field_point 0.7 M depth j) ks False 4096 = Inr psf \<and> data psf \<noteq> []
                     \<and> shape psf = [3, nat ks, nat ks])
              \<or> (\<exists>e. lens (field_point 0.7 M depth j) ks False 4096 = Inl e)))"
  shows "\<exists>psfs. fst (robust_psf_radial eps lens M depth ks ls save_name w) = Inr save_name
           \<and> images (snd (robust_psf_radial eps lens M depth ks ls save_name w)) save_name
               = Some \<lparr>saved_grid = \<lparr>tiles = psfs, nrow = M, padding = 1, pad_value = Fin 0\<rparr>,
                       saved_normalize = True\<rparr>
           \<and> length psfs = nat M
           \<and> (\<forall>j<nat M. \<exists>psf0. fst (robust_psf lens (field_point 0.7 M depth j) j ks) = Inr psf0
                               \<and> normalize_psf eps ls psf0 = Inr (psfs ! j))"
proof -
  let ?pts = "map (field_point 0.7 M depth) [0..<nat M]"
  have M0: "0 \<le> M" using assms(1) by simp
  have "\<forall>i\<in>set [0..<nat M]. \<exists>psf0. fst (robust_psf lens (?pts ! i) i ks) = Inr psf0
           \<and> data psf0 \<noteq> [] \<and> shape psf0 = [3, nat ks, nat ks]"
  proof
    fix i assume "i \<in> set [0..<nat M]"
    then have i: "i < nat M" by simp
    then have pt: "?pts ! i = field_point 0.7 M depth i" by simp
    show "\<exists>psf0. fst (robust_psf lens (?pts ! i) i ks) = Inr psf0
           \<and> data psf0 \<noteq> [] \<and> shape psf0 = [3, nat ks, nat ks]"
      unfolding pt using assms(3) i by (intro robust_psf_good[OF assms(2)]) blast
  qed
  from robust_loop_tiles[OF this, of eps ls]
  obtain psfs out where l: "robust_loop lens ks eps ls ?pts [0..<nat M] = (Inr psfs, out)"
    "length psfs = length [0..<nat M]" "\<forall>t\<in>set psfs. shape t = [3, nat ks, nat ks]"
    "\<forall>k<length [0..<nat M]. \<exists>psf0.
        fst (robust_psf lens (?pts ! ([0..<nat M] ! k)) ([0..<nat M] ! k) ks) = Inr psf0
        \<and> normalize_psf eps ls psf0 = Inr (psfs ! k)" by blast
  have ne: "psfs \<noteq> []" using l(2) assms(1) by auto
  have grid: "make_grid psfs M 1 (Fin 0)
                = Inr \<lparr>tiles = psfs, nrow = M, padding = 1, pad_value = Fin 0\<rparr>"
    by (rule make_grid_ok[OF ne l(3)])
  have res: "robust_psf_radial eps lens M depth ks ls save_name w =
          (Inr save_name,
           (save_image \<lparr>tiles = psfs, nrow = M, padding = 1, pad_value = Fin 0\<rparr> save_name True w)
             \<lparr>printed := printed w @ out @ [''PSF radial has been saved to '' @ save_name]\<rparr>)"
    unfolding robust_psf_radial_unfold[OF M0] l(1) by (simp only: prod.case sum.case grid)
  have each: "\<forall>j<nat M. \<exists>psf0. fst (robust_psf lens (field_point 0.7 M depth j) j ks) = Inr psf0
                               \<and> normalize_psf eps ls psf0 = Inr (psfs ! j)"
  proof (intro allI impI)
    fix j assume j: "j < nat M"
    then have "\<exists>psf0. fst (robust_psf lens (?pts ! ([0..<nat M] ! j)) ([0..<nat M] ! j) ks) = Inr psf0
        \<and> normalize_psf eps ls psf0 = Inr (psfs ! j)" using l(4) by simp
    then show "\<exists>psf0. fst (robust_psf lens (field_point 0.7 M depth j) j ks) = Inr psf0
                               \<and> normalize_psf eps ls psf0 = Inr (psfs ! j)"
      using j by simp
  qed
  have "fst (robust_psf_radial eps lens M depth ks ls save_name w) = Inr save_name"
    and "images (snd (robust_psf_radial eps lens M depth ks ls save_name w)) save_name
               = Some \<lparr>saved_grid = \<lparr>tiles = psfs, nrow = M, padding = 1, pad_value = Fin 0\<rparr>,
                       saved_normalize = True\<rparr>"
    unfolding res by (simp_all add: save_image_def)
  then show ?thesis using l(2) each by (intro exI[of _ psfs]) simp
qed

lemma gaussian_placeholder_eq:
  assumes "0 < ks"
  shows "gaussian_placeholder i ks
           = Inr (stack3 (gaussian_norm i ks) (gaussian_norm i ks) (gaussian_norm i ks))"
  using gaussian_2d_ok(2)[OF assms refl, of i]
  by (simp add: gaussian_placeholder_def ebind_def gaussian_norm_def)

lemma gauss_value_le_one: "gauss_value i ks r c \<le> 1"
proof -
  have "0 \<le> real_of_int ((int c - ks div 2)\<^sup>2 + (int r - ks div 2)\<^sup>2)" by simp
  moreover have "0 < 2 * (2.0 + real i * 1.5)\<^sup>2" by (simp add: add_pos_nonneg)
  ultimately have "- real_of_int ((int c - ks div 2)\<^sup>2 + (int r - ks div 2)\<^sup>2)
                     / (2 * (2.0 + real i * 1.5)\<^sup>2) \<le> 0"
    by (simp add: divide_nonpos_pos)
  then show ?thesis unfolding gauss_value_def by simp
qed

lemma gauss_value_centre:
  assumes "0 \<le> ks"
  shows "gauss_value i ks (nat (ks div 2)) (nat (ks div 2)) = 1"
proof -
  have "0 \<le> ks div 2" using assms by simp
  then have "int (nat (ks div 2)) - ks div 2 = 0" by simp
  then show ?thesis unfolding gauss_value_def by simp
qed

lemma one_in_gauss_values:
  assumes "0 < ks"
  shows "1 \<in> set (gauss_values i ks)"
proof -
  let ?c = "nat (ks div 2)"
  have c: "?c < nat ks" using assms by (simp add: nat_less_iff) 
  have idx: "?c * nat ks + ?c < nat ks * nat ks"
  proof -
    have "?c * nat ks + ?c < ?c * nat ks + nat ks" using c by simp
    also have "\<dots> = Suc ?c * nat ks" by simp
    also have "\<dots> \<le> nat ks * nat ks"
    proof (rule mult_le_mono1)
      show "Suc ?c \<le> nat ks" using c by linarith
    qed
    finally show ?thesis .
  qed
  have "gauss_values i ks ! (?c * nat ks + ?c) = 1"
    using gauss_values_nth[OF c c, of i] gauss_value_centre[of ks i] assms by simp
  moreover have "?c * nat ks + ?c < length (gauss_values i ks)"
    using idx by (simp add: gauss_values_length)
  ultimately show ?thesis by (metis nth_mem)
qed

lemma gauss_values_le_one: "\<forall>v\<in>set (gauss_values i ks). v \<le> 1"
  by (auto simp: gauss_values_def gauss_value_le_one)

text \<open>Divided by its maximum, the placeholder is the unnormalized Gaussian: its peak, at
  the centre, is 1.\<close>

lemma normalize_placeholder:
  assumes "0 < ks"
  shows "normalize_psf eps False
           (stack3 (gaussian_norm i ks) (gaussian_norm i ks) (gaussian_norm i ks))
         = Inr (placeholder_tile i ks)"
proof -
  define V where "V = gauss_values i ks"
  define S where "S = sum_list V"
  let ?P = "stack3 (gaussian_norm i ks) (gaussian_norm i ks) (gaussian_norm i ks)"
  have S: "0 < S" using gaussian_2d_ok(1)[OF assms refl, of i] by (simp add: S_def V_def)
  let ?W = "map (\<lambda>v. v / S) (V @ V @ V)"
  have dP: "data ?P = map Fin ?W"
    by (simp add: stack3_def gaussian_norm_def V_def S_def)
  have one: "1 \<in> set V" unfolding V_def by (rule one_in_gauss_values[OF assms])
  have le: "\<forall>v\<in>set V. v \<le> 1" unfolding V_def by (rule gauss_values_le_one)
  have Wne: "?W \<noteq> []" using one by auto
  have "Max (set ?W) = 1 / S"
  proof (rule Max_eqI)
    show "finite (set ?W)" by simp
    show "1 / S \<in> set ?W" using one by force
    fix y assume "y \<in> set ?W"
    then obtain v where "v \<in> set V" "y = v / S" by auto
    then show "y \<le> 1 / S" using le S by (simp add: divide_right_mono)
  qed
  then have tm: "tmax ?P = Inr (Fin (1 / S))" using tmax_Fin[OF dP Wne] by simp
  have nz: "1 / S \<noteq> 0" using S by simp
  have "tmap (\<lambda>x. fdiv x (Fin (1 / S))) ?P = placeholder_tile i ks"
    using S by (simp add: tmap_def stack3_def gaussian_norm_def placeholder_tile_def
                          V_def[symmetric] S_def[symmetric] comp_def)
  then show ?thesis
    by (simp add: normalize_psf_unfold[OF tm])
qed

lemma upt_nat_3: "[0..<nat 3] = [0, 1, 2]"
  by code_simp

lemma gauss_values_0_3:
  "gauss_values 0 3 = [exp (- (1 / 4)), exp (- (1 / 8)), exp (- (1 / 4)),
                       exp (- (1 / 8)), 1, exp (- (1 / 8)),
                       exp (- (1 / 4)), exp (- (1 / 8)), exp (- (1 / 4))]"
  unfolding gauss_values_def upt_nat_3
  by (simp add: gauss_value_def power2_eq_square)

lemma gauss_values_1_3:
  "gauss_values 1 3 = [exp (- (4 / 49)), exp (- (2 / 49)), exp (- (4 / 49)),
                       exp (- (2 / 49)), 1, exp (- (2 / 49)),
                       exp (- (4 / 49)), exp (- (2 / 49)), exp (- (4 / 49))]"
  unfolding gauss_values_def upt_nat_3
  by (simp add: gauss_value_def power2_eq_square)

text \<open>
  Claim C1. For a field point of \<open>robust_psf_radial\<close>: the PSF requested with recentering is
  used when that request succeeds; when it raises the validity failure, the PSF requested
  without recentering is used when that succeeds; when the second request raises any
  exception, the PSF is the placeholder (for a positive kernel size): three identical
  channels \<open>g\<close> of size \<open>ks\<close> by \<open>ks\<close>, each summing to 1, whose entries are a Gaussian centred
  at \<open>(ks div 2, ks div 2)\<close> with standard deviation \<open>2.0 + 1.5 * i\<close>, divided by their sum.
  For the whole call, when every field point is served by one of the three tiers (the lens
  returning non-empty PSFs of size 3 by \<open>ks\<close> by \<open>ks\<close>): the call returns \<open>save_name\<close> and
  saves a grid of \<open>M\<close> tiles, and tile \<open>j\<close> is the normalized PSF of field point \<open>j\<close> of
  \<open>linspace(0, 0.7, M)\<close>, taken from the first tier that serves it: the recentered PSF,
  else the PSF without recentering, else the placeholder with standard deviation
  \<open>2.0 + 1.5 * j\<close>.
\<close>

theorem robust_three_tier_fallback:
  "(lens p ks True 4096 = Inr psf \<longrightarrow> fst (robust_psf lens p i ks) = Inr psf)
   \<and> (lens p ks True 4096 = Inl AssertionError \<and> lens p ks False 4096 = Inr psf \<longrightarrow>
        fst (robust_psf lens p i ks) = Inr psf)
   \<and> (lens p ks True 4096 = Inl AssertionError \<and> lens p ks False 4096 = Inl e \<and> 0 < ks \<longrightarrow>
        (\<exists>g S. fst (robust_psf lens p i ks) = Inr (stack3 g g g)
           \<and> shape (stack3 g g g) = [3, nat ks, nat ks]
           \<and> length (data g) = nat ks * nat ks
           \<and> tsum g = Fin 1 \<and> 0 < S
           \<and> (\<forall>r<nat ks. \<forall>c<nat ks.
                 data g ! (r * nat ks + c) =
                   Fin (exp (- real_of_int ((int c - ks div 2)\<^sup>2 + (int r - ks div 2)\<^sup>2)
                             / (2 * (2.0 + real i * 1.5)\<^sup>2)) / S))))
   \<and> (0 < M \<and> 0 < ks
        \<and> (\<forall>j<nat M.
              (\<exists>psf. lens (field_point 0.7 M depth j) ks True 4096 = Inr psf \<and> data psf \<noteq> []
                     \<and> shape psf = [3, nat ks, nat ks])
            \<or> (lens (field_point 0.7 M depth j) ks True 4096 = Inl AssertionError
               \<and> ((\<exists>psf. lens (field_point 0.7 M depth j) ks False 4096 = Inr psf
                          \<and> data psf \<noteq> [] \<and> shape psf = [3, nat ks, nat ks])
                  \<or> (\<exists>e. lens (field_point 0.7 M depth j) ks False 4096 = Inl e)))) \<longrightarrow>
        (\<exists>xs psfs.
             linspace 0 0.7 M = Inr xs \<and> length (field_points xs xs depth) = nat M
           \<and> (\<forall>j<nat M. field_points xs xs depth ! j = field_point 0.7 M depth j
                  \<and> field_point 0.7 M depth j
                      = \<lparr>shape = [3],
                         data = [Fin (field_coord 0.7 M j), Fin (field_coord 0.7 M j), depth]\<rparr>)
           \<and> fst (robust_psf_radial eps lens M depth ks ls save_name w) = Inr save_name
           \<and> images (snd (robust_psf_radial eps lens M depth ks ls save_name w)) save_name
               = Some \<lparr>saved_grid = \<lparr>tiles = psfs, nrow = M, padding = 1, pad_value = Fin 0\<rparr>,
                       saved_normalize = True\<rparr>
           \<and> length psfs = nat M
           \<and> (\<forall>j<nat M.
                 (\<forall>psf. lens (field_points xs xs depth ! j) ks True 4096 = Inr psf \<longrightarrow>
                    normalize_psf eps ls psf = Inr (psfs ! j))
               \<and> (\<forall>psf. lens (field_points xs xs depth ! j) ks True 4096 = Inl AssertionError
                        \<and> lens (field_points xs xs depth ! j) ks False 4096 = Inr psf \<longrightarrow>
                    normalize_psf eps ls psf = Inr (psfs ! j))
               \<and> (\<forall>e. lens (field_points xs xs depth ! j) ks True 4096 = Inl AssertionError
                      \<and> lens (field_points xs xs depth ! j) ks False 4096 = Inl e \<longrightarrow>
                    (\<exists>g S. gaussian_placeholder j ks = Inr (stack3 g g g)
                       \<and> normalize_psf eps ls (stack3 g g g) = Inr (psfs ! j)
                       \<and> shape (stack3 g g g) = [3, nat ks, nat ks]
                       \<and> length (data g) = nat ks * nat ks
                       \<and> tsum g = Fin 1 \<and> 0 < S
                       \<and> (\<forall>r<nat ks. \<forall>c<nat ks.
                             data g ! (r * nat ks + c) =
                               Fin (exp (- real_of_int ((int c - ks div 2)\<^sup>2
                                                         + (int r - ks div 2)\<^sup>2)
                                         / (2 * (2.0 + real j * 1.5)\<^sup>2)) / S)))))))"
proof (intro conjI impI)
  assume "lens p ks True 4096 = Inr psf"
  then show "fst (robust_psf lens p i ks) = Inr psf" by (simp add: robust_psf_first)
next
  assume "lens p ks True 4096 = Inl AssertionError \<and> lens p ks False 4096 = Inr psf"
  then show "fst (robust_psf lens p i ks) = Inr psf" by (simp add: robust_psf_retry)
next
  assume a: "lens p ks True 4096 = Inl AssertionError \<and> lens p ks False 4096 = Inl e \<and> 0 < ks"
  then have r: "fst (robust_psf lens p i ks) = gaussian_placeholder i ks"
    by (simp add: robust_psf_placeholder)
  from a have k: "0 < ks" by simp
  show "\<exists>g S. fst (robust_psf lens p i ks) = Inr (stack3 g g g)
           \<and> shape (stack3 g g g) = [3, nat ks, nat ks]
           \<and> length (data g) = nat ks * nat ks
           \<and> tsum g = Fin 1 \<and> 0 < S
           \<and> (\<forall>r<nat ks. \<forall>c<nat ks.
                 data g ! (r * nat ks + c) =
                   Fin (exp (- real_of_int ((int c - ks div 2)\<^sup>2 + (int r - ks div 2)\<^sup>2)
                             / (2 * (2.0 + real i * 1.5)\<^sup>2)) / S))"
    unfolding r using gaussian_placeholder_ok[OF k, of i] by blast
next
  assume a: "0 < M \<and> 0 < ks
        \<and> (\<forall>j<nat M.
              (\<exists>psf. lens (field_point 0.7 M depth j) ks True 4096 = Inr psf \<and> data psf \<noteq> []
                     \<and> shape psf = [3, nat ks, nat ks])
            \<or> (lens (field_point 0.7 M depth j) ks True 4096 = Inl AssertionError
               \<and> ((\<exists>psf. lens (field_point 0.7 M depth j) ks False 4096 = Inr psf
                          \<and> data psf \<noteq> [] \<and> shape psf = [3, nat ks, nat ks])
                  \<or> (\<exists>e. lens (field_point 0.7 M depth j) ks False 4096 = Inl e))))"
  then have 1: "0 < M" and 2: "0 < ks" by simp_all
  from a have 3: "\<forall>j<nat M.
              (\<exists>psf. lens (field_point 0.7 M depth j) ks True 4096 = Inr psf \<and> data psf \<noteq> []
                     \<and> shape psf = [3, nat ks, nat ks])
            \<or> (lens (field_point 0.7 M depth j) ks True 4096 = Inl AssertionError
               \<and> ((\<exists>psf. lens (field_point 0.7 M depth j) ks False 4096 = Inr psf
                          \<and> data psf \<noteq> [] \<and> shape psf = [3, nat ks, nat ks])
                  \<or> (\<exists>e. lens (field_point 0.7 M depth j) ks False 4096 = Inl e)))" by simp
  let ?xs = "map (\<lambda>i. Fin (field_coord 0.7 M i)) [0..<nat M]"
  have M0: "0 \<le> M" using 1 by simp
  have lin: "linspace 0 0.7 M = Inr ?xs" by (rule linspace_from_zero[OF M0])
  have pts: "field_points ?xs ?xs depth = map (field_point 0.7 M depth) [0..<nat M]"
    by (rule field_points_eq)
  have len_pts: "length (field_points ?xs ?xs depth) = nat M" by (simp add: pts)
  have pt: "\<forall>j<nat M. field_points ?xs ?xs depth ! j = field_point 0.7 M depth j
                  \<and> field_point 0.7 M depth j
                      = \<lparr>shape = [3],
                         data = [Fin (field_coord 0.7 M j), Fin (field_coord 0.7 M j), depth]\<rparr>"
    by (simp add: pts field_point_def)
  from robust_psf_radial_tiles[where M = M and ks = ks and lens = lens and depth = depth
         and eps = eps and ls = ls and save_name = save_name and w = w] 1 2 3
  obtain psfs where
    f: "fst (robust_psf_radial eps lens M depth ks ls save_name w) = Inr save_name"
    and im: "images (snd (robust_psf_radial eps lens M depth ks ls save_name w)) save_name
               = Some \<lparr>saved_grid = \<lparr>tiles = psfs, nrow = M, padding = 1, pad_value = Fin 0\<rparr>,
                       saved_normalize = True\<rparr>"
    and len: "length psfs = nat M"
    and each: "\<forall>j<nat M. \<exists>psf0. fst (robust_psf lens (field_point 0.7 M depth j) j ks) = Inr psf0
                               \<and> normalize_psf eps ls psf0 = Inr (psfs ! j)"
    by blast
  have tiers: "\<forall>j<nat M.
                 (\<forall>psf. lens (field_points ?xs ?xs depth ! j) ks True 4096 = Inr psf \<longrightarrow>
                    normalize_psf eps ls psf = Inr (psfs ! j))
               \<and> (\<forall>psf. lens (field_points ?xs ?xs depth ! j) ks True 4096 = Inl AssertionError
                        \<and> lens (field_points ?xs ?xs depth ! j) ks False 4096 = Inr psf \<longrightarrow>
                    normalize_psf eps ls psf = Inr (psfs ! j))
               \<and> (\<forall>e. lens (field_points ?xs ?xs depth ! j) ks True 4096 = Inl AssertionError
                      \<and> lens (field_points ?xs ?xs depth ! j) ks False 4096 = Inl e \<longrightarrow>
                    (\<exists>g S. gaussian_placeholder j ks = Inr (stack3 g g g)
                       \<and> normalize_psf eps ls (stack3 g g g) = Inr (psfs ! j)
                       \<and> shape (stack3 g g g) = [3, nat ks, nat ks]
                       \<and> length (data g) = nat ks * nat ks
                       \<and> tsum g = Fin 1 \<and> 0 < S
                       \<and> (\<forall>r<nat ks. \<forall>c<nat ks.
                             data g ! (r * nat ks + c) =
                               Fin (exp (- real_of_int ((int c - ks div 2)\<^sup>2
                                                         + (int r - ks div 2)\<^sup>2)
                                         / (2 * (2.0 + real j * 1.5)\<^sup>2)) / S))))"
  proof (intro allI impI)
    fix j assume j: "j < nat M"
    let ?p = "field_point 0.7 M depth j"
    have pj: "field_points ?xs ?xs depth ! j = ?p" using pt j by blast
    obtain psf0 where p0: "fst (robust_psf lens ?p j ks) = Inr psf0"
      "normalize_psf eps ls psf0 = Inr (psfs ! j)" using each j by blast
    have t1: "\<forall>psf. lens ?p ks True 4096 = Inr psf \<longrightarrow>
                    normalize_psf eps ls psf = Inr (psfs ! j)"
    proof (intro allI impI)
      fix psf assume "lens ?p ks True 4096 = Inr psf"
      then have "fst (robust_psf lens ?p j ks) = Inr psf" by (simp add: robust_psf_first)
      then show "normalize_psf eps ls psf = Inr (psfs ! j)" using p0 by simp
    qed
    have t2: "\<forall>psf. lens ?p ks True 4096 = Inl AssertionError
                        \<and> lens ?p ks False 4096 = Inr psf \<longrightarrow>
                    normalize_psf eps ls psf = Inr (psfs ! j)"
    proof (intro allI impI)
      fix psf assume "lens ?p ks True 4096 = Inl AssertionError \<and> lens ?p ks False 4096 = Inr psf"
      then have "fst (robust_psf lens ?p j ks) = Inr psf" by (simp add: robust_psf_retry)
      then show "normalize_psf eps ls psf = Inr (psfs ! j)" using p0 by simp
    qed
    have t3: "\<forall>e. lens ?p ks True 4096 = Inl AssertionError
                      \<and> lens ?p ks False 4096 = Inl e \<longrightarrow>
                    (\<exists>g S. gaussian_placeholder j ks = Inr (stack3 g g g)
                       \<and> normalize_psf eps ls (stack3 g g g) = Inr (psfs ! j)
                       \<and> shape (stack3 g g g) = [3, nat ks, nat ks]
                       \<and> length (data g) = nat ks * nat ks
                       \<and> tsum g = Fin 1 \<and> 0 < S
                       \<and> (\<forall>r<nat ks. \<forall>c<nat ks.
                             data g ! (r * nat ks + c) =
                               Fin (exp (- real_of_int ((int c - ks div 2)\<^sup>2
                                                         + (int r - ks div 2)\<^sup>2)
                                         / (2 * (2.0 + real j * 1.5)\<^sup>2)) / S)))"
    proof (intro allI impI)
      fix e assume "lens ?p ks True 4096 = Inl AssertionError \<and> lens ?p ks False 4096 = Inl e"
      then have r: "fst (robust_psf lens ?p j ks) = gaussian_placeholder j ks"
        by (simp add: robust_psf_placeholder)
      obtain g S where g: "gaussian_placeholder j ks = Inr (stack3 g g g)"
        "shape (stack3 g g g) = [3, nat ks, nat ks]"
        "length (data g) = nat ks * nat ks" "tsum g = Fin 1" "0 < S"
        "\<forall>r<nat ks. \<forall>c<nat ks.
                 data g ! (r * nat ks + c) =
                   Fin (exp (- real_of_int ((int c - ks div 2)\<^sup>2 + (int r - ks div 2)\<^sup>2)
                             / (2 * (2.0 + real j * 1.5)\<^sup>2)) / S)"
        using gaussian_placeholder_ok[OF 2, of j] by blast
      have "psf0 = stack3 g g g" using p0(1) r g(1) by simp
      then have "normalize_psf eps ls (stack3 g g g) = Inr (psfs ! j)" using p0(2) by simp
      then show "\<exists>g S. gaussian_placeholder j ks = Inr (stack3 g g g)
                       \<and> normalize_psf eps ls (stack3 g g g) = Inr (psfs ! j)
                       \<and> shape (stack3 g g g) = [3, nat ks, nat ks]
                       \<and> length (data g) = nat ks * nat ks
                       \<and> tsum g = Fin 1 \<and> 0 < S
                       \<and> (\<forall>r<nat ks. \<forall>c<nat ks.
                             data g ! (r * nat ks + c) =
                               Fin (exp (- real_of_int ((int c - ks div 2)\<^sup>2
                                                         + (int r - ks div 2)\<^sup>2)
                                         / (2 * (2.0 + real j * 1.5)\<^sup>2)) / S))"
        using g by (intro exI[of _ g] exI[of _ S]) simp
    qed
    show "(\<forall>psf. lens (field_points ?xs ?xs depth ! j) ks True 4096 = Inr psf \<longrightarrow>
                    normalize_psf eps ls psf = Inr (psfs ! j))
               \<and> (\<forall>psf. lens (field_points ?xs ?xs depth ! j) ks True 4096 = Inl AssertionError
                        \<and> lens (field_points ?xs ?xs depth ! j) ks False 4096 = Inr psf \<longrightarrow>
                    normalize_psf eps ls psf = Inr (psfs ! j))
               \<and> (\<forall>e. lens (field_points ?xs ?xs depth ! j) ks True 4096 = Inl AssertionError
                      \<and> lens (field_points ?xs ?xs depth ! j) ks False 4096 = Inl e \<longrightarrow>
                    (\<exists>g S. gaussian_placeholder j ks = Inr (stack3 g g g)
                       \<and> normalize_psf eps ls (stack3 g g g) = Inr (psfs ! j)
                       \<and> shape (stack3 g g g) = [3, nat ks, nat ks]
                       \<and> length (data g) = nat ks * nat ks
                       \<and> tsum g = Fin 1 \<and> 0 < S
                       \<and> (\<forall>r<nat ks. \<forall>c<nat ks.
                             data g ! (r * nat ks + c) =
                               Fin (exp (- real_of_int ((int c - ks div 2)\<^sup>2
                                                         + (int r - ks div 2)\<^sup>2)
                                         / (2 * (2.0 + real j * 1.5)\<^sup>2)) / S))))"
      unfolding pj using t1 t2 t3 by (intro conjI)
  qed
  show "\<exists>xs psfs.
             linspace 0 0.7 M = Inr xs \<and> length (field_points xs xs depth) = nat M
           \<and> (\<forall>j<nat M. field_points xs xs depth ! j = field_point 0.7 M depth j
                  \<and> field_point 0.7 M depth j
                      = \<lparr>shape = [3],
                         data = [Fin (field_coord 0.7 M j), Fin (field_coord 0.7 M j), depth]\<rparr>)
           \<and> fst (robust_psf_radial eps lens M depth ks ls save_name w) = Inr save_name
           \<and> images (snd (robust_psf_radial eps lens M depth ks ls save_name w)) save_name
               = Some \<lparr>saved_grid = \<lparr>tiles = psfs, nrow = M, padding = 1, pad_value = Fin 0\<rparr>,
                       saved_normalize = True\<rparr>
           \<and> length psfs = nat M
           \<and> (\<forall>j<nat M.
                 (\<forall>psf. lens (field_points xs xs depth ! j) ks True 4096 = Inr psf \<longrightarrow>
                    normalize_psf eps ls psf = Inr (psfs ! j))
               \<and> (\<forall>psf. lens (field_points xs xs depth ! j) ks True 4096 = Inl AssertionError
                        \<and> lens (field_points xs xs depth ! j) ks False 4096 = Inr psf \<longrightarrow>
                    normalize_psf eps ls psf = Inr (psfs ! j))
               \<and> (\<forall>e. lens (field_points xs xs depth ! j) ks True 4096 = Inl AssertionError
                      \<and> lens (field_points xs xs depth ! j) ks False 4096 = Inl e \<longrightarrow>
                    (\<exists>g S. gaussian_placeholder j ks = Inr (stack3 g g g)
                       \<and> normalize_psf eps ls (stack3 g g g) = Inr (psfs ! j)
                       \<and> shape (stack3 g g g) = [3, nat ks, nat ks]
                       \<and> length (data g) = nat ks * nat ks
                       \<and> tsum g = Fin 1 \<and> 0 < S
                       \<and> (\<forall>r<nat ks. \<forall>c<nat ks.
                             data g ! (r * nat ks + c) =
                               Fin (exp (- real_of_int ((int c - ks div 2)\<^sup>2
                                                         + (int r - ks div 2)\<^sup>2)
                                         / (2 * (2.0 + real j * 1.5)\<^sup>2)) / S)))))"
    using lin len_pts pt f im len tiers
    by (intro exI[of _ ?xs] exI[of _ psfs] conjI)
qed

lemma placeholder_one_pixel: "gaussian_placeholder 0 1 = Inr one_pixel_rgb"
  by (simp add: gaussian_placeholder_def gaussian_2d_def gaussian_raw_def tsum_def tmap_def
                stack3_def ebind_def one_pixel_rgb_def Let_def)

theorem robust_three_tier_fallback_witness:
  "fst (robust_psf (const_lens two_pixels) (field_point 0.7 2 (Fin 1000) 1) 1 3) = Inr two_pixels
   \<and> retry_lens two_pixels (field_point 0.7 2 (Fin 1000) 1) 3 True 4096 = Inl AssertionError
   \<and> fst (robust_psf (retry_lens two_pixels) (field_point 0.7 2 (Fin 1000) 1) 1 3) = Inr two_pixels
   \<and> failing_lens AssertionError (field_point 0.7 2 (Fin 1000) 1) 3 False 4096
       = Inl AssertionError
   \<and> fst (robust_psf (failing_lens AssertionError) (field_point 0.7 2 (Fin 1000) 1) 1 3)
       = Inr (stack3 (gaussian_norm 1 3) (gaussian_norm 1 3) (gaussian_norm 1 3))
   \<and> shape (stack3 (gaussian_norm 1 3) (gaussian_norm 1 3) (gaussian_norm 1 3)) = [3, 3, 3]
   \<and> tsum (gaussian_norm 1 3) = Fin 1
   \<and> gauss_values 0 3 = [exp (- (1 / 4)), exp (- (1 / 8)), exp (- (1 / 4)),
                          exp (- (1 / 8)), 1, exp (- (1 / 8)),
                          exp (- (1 / 4)), exp (- (1 / 8)), exp (- (1 / 4))]
   \<and> gauss_values 1 3 = [exp (- (4 / 49)), exp (- (2 / 49)), exp (- (4 / 49)),
                          exp (- (2 / 49)), 1, exp (- (2 / 49)),
                          exp (- (4 / 49)), exp (- (2 / 49)), exp (- (4 / 49))]
   \<and> fst (robust_psf_radial 1 (failing_lens AssertionError) 2 (Fin 1000) 3 False
             ''psf_radial.png'' world0) = Inr ''psf_radial.png''
   \<and> images (snd (robust_psf_radial 1 (failing_lens AssertionError) 2 (Fin 1000) 3 False
                     ''psf_radial.png'' world0)) ''psf_radial.png''
       = Some \<lparr>saved_grid = \<lparr>tiles = [placeholder_tile 0 3, placeholder_tile 1 3], nrow = 2,
                               padding = 1, pad_value = Fin 0\<rparr>,
               saved_normalize = True\<rparr>"
proof -
  let ?p = "field_point 0.7 2 (Fin 1000) 1"
  let ?fl = "failing_lens AssertionError"
  let ?G = "gaussian_norm 1 3"
  have c: "const_lens two_pixels ?p 3 True 4096 = Inr two_pixels" by (simp add: const_lens_def)
  have r: "retry_lens two_pixels ?p 3 True 4096 = Inl AssertionError"
    "retry_lens two_pixels ?p 3 False 4096 = Inr two_pixels" by (simp_all add: retry_lens_def)
  have f: "?fl ?p 3 True 4096 = Inl AssertionError" "?fl ?p 3 False 4096 = Inl AssertionError"
    by (simp_all add: failing_lens_def)
  have pos: "(0::int) < 2" "(0::int) < 3" by simp_all
  have 1: "fst (robust_psf (const_lens two_pixels) ?p 1 3) = Inr two_pixels"
    by (rule robust_three_tier_fallback[where lens = "const_lens two_pixels" and p = ?p
               and ks = 3 and psf = two_pixels and i = 1, THEN conjunct1, THEN mp, OF c])
  have 2: "fst (robust_psf (retry_lens two_pixels) ?p 1 3) = Inr two_pixels"
    by (rule robust_three_tier_fallback[where lens = "retry_lens two_pixels" and p = ?p
               and ks = 3 and psf = two_pixels and i = 1, THEN conjunct2, THEN conjunct1,
               THEN mp, OF conjI[OF r]])
  have ph: "gaussian_placeholder 1 3 = Inr (stack3 ?G ?G ?G)"
    by (rule gaussian_placeholder_eq[OF pos(2)])
  have 3: "fst (robust_psf ?fl ?p 1 3) = Inr (stack3 ?G ?G ?G)"
    using robust_psf_placeholder[where lens = ?fl and p = ?p and ks = 3 and i = 1
            and e = AssertionError] f ph by simp
  from robust_three_tier_fallback[where lens = ?fl and p = ?p and ks = 3 and i = 1
            and e = AssertionError,
            THEN conjunct2, THEN conjunct2, THEN conjunct1, THEN mp,
            OF conjI[OF f(1) conjI[OF f(2) pos(2)]]]
  obtain t where t: "fst (robust_psf ?fl ?p 1 3) = Inr (stack3 t t t)"
    "shape (stack3 t t t) = [3, nat 3, nat 3]" by (elim exE conjE)
  have 4: "shape (stack3 ?G ?G ?G) = [3, 3, 3]" using t 3 by simp
  have 5: "tsum ?G = Fin 1"
    using gaussian_2d_ok(3)[OF pos(2) refl, of 1] by (simp add: gaussian_norm_def)
  have all: "\<forall>j<nat 2.
              (\<exists>psf. ?fl (field_point 0.7 2 (Fin 1000) j) 3 True 4096 = Inr psf
                     \<and> data psf \<noteq> [] \<and> shape psf = [3, nat 3, nat 3])
            \<or> (?fl (field_point 0.7 2 (Fin 1000) j) 3 True 4096 = Inl AssertionError
               \<and> ((\<exists>psf. ?fl (field_point 0.7 2 (Fin 1000) j) 3 False 4096 = Inr psf
                          \<and> data psf \<noteq> [] \<and> shape psf = [3, nat 3, nat 3])
                  \<or> (\<exists>e. ?fl (field_point 0.7 2 (Fin 1000) j) 3 False 4096 = Inl e)))"
    by (simp add: failing_lens_def)
  from robust_three_tier_fallback[where lens = ?fl and ks = 3
            and M = 2 and depth = "Fin 1000" and eps = 1 and ls = False
            and save_name = "''psf_radial.png''" and w = world0,
            THEN conjunct2, THEN conjunct2, THEN conjunct2, THEN mp,
            OF conjI[OF pos(1) conjI[OF pos(2) all]]]
  obtain xs psfs where
    fs: "fst (robust_psf_radial 1 ?fl 2 (Fin 1000) 3 False ''psf_radial.png'' world0)
           = Inr ''psf_radial.png''"
    and im: "images (snd (robust_psf_radial 1 ?fl 2 (Fin 1000) 3 False ''psf_radial.png'' world0))
               ''psf_radial.png''
             = Some \<lparr>saved_grid = \<lparr>tiles = psfs, nrow = 2, padding = 1, pad_value = Fin 0\<rparr>,
                     saved_normalize = True\<rparr>"
    and len: "length psfs = nat 2"
    and tiers: "\<forall>j<nat 2.
                 (\<forall>psf. ?fl (field_points xs xs (Fin 1000) ! j) 3 True 4096 = Inr psf \<longrightarrow>
                    normalize_psf 1 False psf = Inr (psfs ! j))
               \<and> (\<forall>psf. ?fl (field_points xs xs (Fin 1000) ! j) 3 True 4096 = Inl AssertionError
                        \<and> ?fl (field_points xs xs (Fin 1000) ! j) 3 False 4096 = Inr psf \<longrightarrow>
                    normalize_psf 1 False psf = Inr (psfs ! j))
               \<and> (\<forall>e. ?fl (field_points xs xs (Fin 1000) ! j) 3 True 4096 = Inl AssertionError
                      \<and> ?fl (field_points xs xs (Fin 1000) ! j) 3 False 4096 = Inl e \<longrightarrow>
                    (\<exists>g S. gaussian_placeholder j 3 = Inr (stack3 g g g)
                       \<and> normalize_psf 1 False (stack3 g g g) = Inr (psfs ! j)
                       \<and> shape (stack3 g g g) = [3, nat 3, nat 3]
                       \<and> length (data g) = nat 3 * nat 3
                       \<and> tsum g = Fin 1 \<and> 0 < S
                       \<and> (\<forall>r<nat 3. \<forall>c<nat 3.
                             data g ! (r * nat 3 + c) =
                               Fin (exp (- real_of_int ((int c - 3 div 2)\<^sup>2
                                                         + (int r - 3 div 2)\<^sup>2)
                                         / (2 * (2.0 + real j * 1.5)\<^sup>2)) / S))))"
    by (elim exE conjE)
  have tile: "psfs ! j = placeholder_tile j 3" if j: "j < 2" for j
  proof -
    have jn: "j < nat 2" using j by simp
    have fa: "?fl (field_points xs xs (Fin 1000) ! j) 3 True 4096 = Inl AssertionError
              \<and> ?fl (field_points xs xs (Fin 1000) ! j) 3 False 4096 = Inl AssertionError"
      by (simp add: failing_lens_def)
    from tiers jn fa obtain g S where g: "gaussian_placeholder j 3 = Inr (stack3 g g g)"
      "normalize_psf 1 False (stack3 g g g) = Inr (psfs ! j)" by blast
    have "stack3 g g g = stack3 (gaussian_norm j 3) (gaussian_norm j 3) (gaussian_norm j 3)"
      using g(1) gaussian_placeholder_eq[OF pos(2), of j] by simp
    then show ?thesis using g(2) normalize_placeholder[OF pos(2), of 1 j] by simp
  qed
  have "psfs = [placeholder_tile 0 3, placeholder_tile 1 3]"
  proof (rule nth_equalityI)
    show "length psfs = length [placeholder_tile 0 3, placeholder_tile 1 3]" using len by simp
    fix k assume "k < length psfs"
    then have k: "k < 2" using len by simp
    then have "k = 0 \<or> k = 1" by auto
    then show "psfs ! k = [placeholder_tile 0 3, placeholder_tile 1 3] ! k"
      using tile[of 0] tile[of 1] by auto
  qed
  then have 6: "images (snd (robust_psf_radial 1 ?fl 2 (Fin 1000) 3 False ''psf_radial.png'' world0))
               ''psf_radial.png''
       = Some \<lparr>saved_grid = \<lparr>tiles = [placeholder_tile 0 3, placeholder_tile 1 3], nrow = 2,
                               padding = 1, pad_value = Fin 0\<rparr>,
               saved_normalize = True\<rparr>" using im by simp
  show ?thesis
    by (intro conjI 1 r(1) 2 f(2) 3 4 5 gauss_values_0_3 gauss_values_1_3 fs 6)
qed

text \<open>
  Claim C9. If the first attempt for a field point raises an exception other than the
  validity failure, that exception is the outcome for the point and nothing is printed; a
  retry message or a placeholder message, and an outcome other than that of the first
  attempt, occur only when the first attempt raised the validity failure. For the whole call:
  if the loop completes the points before \<open>j\<close> and the first attempt at point \<open>j\<close> raises
  another exception, the call raises that exception and writes no file.
\<close>

theorem robust_first_attempt_other_exception:
  "(lens p ks True 4096 = Inl e \<and> e \<noteq> AssertionError \<longrightarrow>
      robust_psf lens p i ks = (Inl e, []))
   \<and> (snd (robust_psf lens p i ks) \<noteq> [] \<longrightarrow> lens p ks True 4096 = Inl AssertionError)
   \<and> (fst (robust_psf lens p i ks) \<noteq> lens p ks True 4096 \<longrightarrow>
        lens p ks True 4096 = Inl AssertionError)
   \<and> (0 \<le> M \<and> j < nat M
        \<and> robust_loop lens ks eps ls (map (field_point 0.7 M depth) [0..<nat M]) [0..<j]
            = (Inr psfs, out)
        \<and> lens (field_point 0.7 M depth j) ks True 4096 = Inl e \<and> e \<noteq> AssertionError \<longrightarrow>
        robust_psf_radial eps lens M depth ks ls save_name w
          = (Inl e, w\<lparr>printed := printed w @ out\<rparr>))"
proof (intro conjI impI)
  assume "lens p ks True 4096 = Inl e \<and> e \<noteq> AssertionError"
  then show "robust_psf lens p i ks = (Inl e, [])"
    using robust_psf_other[of lens p ks i] by auto
next
  assume a: "snd (robust_psf lens p i ks) \<noteq> []"
  show "lens p ks True 4096 = Inl AssertionError"
  proof (rule ccontr)
    assume "lens p ks True 4096 \<noteq> Inl AssertionError"
    then have "robust_psf lens p i ks = (lens p ks True 4096, [])" by (rule robust_psf_other)
    then show False using a by simp
  qed
next
  assume a: "fst (robust_psf lens p i ks) \<noteq> lens p ks True 4096"
  show "lens p ks True 4096 = Inl AssertionError"
  proof (rule ccontr)
    assume "lens p ks True 4096 \<noteq> Inl AssertionError"
    then have "robust_psf lens p i ks = (lens p ks True 4096, [])" by (rule robust_psf_other)
    then show False using a by simp
  qed
next
  assume "0 \<le> M \<and> j < nat M
        \<and> robust_loop lens ks eps ls (map (field_point 0.7 M depth) [0..<nat M]) [0..<j]
            = (Inr psfs, out)
        \<and> lens (field_point 0.7 M depth j) ks True 4096 = Inl e \<and> e \<noteq> AssertionError"
  then show "robust_psf_radial eps lens M depth ks ls save_name w
          = (Inl e, w\<lparr>printed := printed w @ out\<rparr>)"
    using robust_psf_radial_aborts[where M = M and i = j and lens = lens] by blast
qed

theorem robust_first_attempt_other_exception_witness:
  "failing_lens RuntimeError (field_point 0.7 2 (Fin 1000) 0) 101 True 4096 = Inl RuntimeError
   \<and> RuntimeError \<noteq> AssertionError
   \<and> robust_psf (failing_lens RuntimeError) (field_point 0.7 2 (Fin 1000) 0) 0 101
       = (Inl RuntimeError, [])
   \<and> snd (robust_psf (failing_lens AssertionError) (field_point 0.7 2 (Fin 1000) 0) 0 1) \<noteq> []
   \<and> fst (robust_psf (failing_lens AssertionError) (field_point 0.7 2 (Fin 1000) 0) 0 1)
       \<noteq> failing_lens AssertionError (field_point 0.7 2 (Fin 1000) 0) 1 True 4096
   \<and> failing_lens AssertionError (field_point 0.7 2 (Fin 1000) 0) 1 True 4096
       = Inl AssertionError
   \<and> robust_psf_radial 1 (failing_lens RuntimeError) 2 (Fin 1000) 101 True ''psf_radial.png'' world0
       = (Inl RuntimeError, world0)"
proof -
  let ?p = "field_point 0.7 2 (Fin 1000) 0"
  have a: "failing_lens RuntimeError ?p 101 True 4096 = Inl RuntimeError"
    by (simp add: failing_lens_def)
  have f: "failing_lens AssertionError ?p 1 True 4096 = Inl AssertionError"
    "failing_lens AssertionError ?p 1 False 4096 = Inl AssertionError"
    by (simp_all add: failing_lens_def)
  have ph: "robust_psf (failing_lens AssertionError) ?p 0 1 =
     (gaussian_placeholder 0 1,
      [''Trying without recentering for field point '' @ str_nat 0,
       ''Creating placeholder Gaussian PSF for field point '' @ str_nat 0])"
    using robust_psf_placeholder[where lens = "failing_lens AssertionError" and p = ?p
            and ks = 1 and i = 0 and e = AssertionError] f by simp
  have s: "snd (robust_psf (failing_lens AssertionError) ?p 0 1) \<noteq> []"
    by (simp add: ph)
  have n: "fst (robust_psf (failing_lens AssertionError) ?p 0 1)
             \<noteq> failing_lens AssertionError ?p 1 True 4096"
    by (simp add: ph placeholder_one_pixel f(1))
  have l: "robust_loop (failing_lens RuntimeError) 101 1 True
             (map (field_point 0.7 2 (Fin 1000)) [0..<nat 2]) [0..<0] = (Inr [], [])" by simp
  have ne: "RuntimeError \<noteq> AssertionError" by simp
  have 1: "robust_psf (failing_lens RuntimeError) ?p 0 101 = (Inl RuntimeError, [])"
    by (rule robust_first_attempt_other_exception[where lens = "failing_lens RuntimeError"
               and p = ?p and ks = 101 and e = RuntimeError and i = 0,
               THEN conjunct1, THEN mp, OF conjI[OF a ne]])
  have M: "(0::int) \<le> 2" "(0::nat) < nat 2" by simp_all
  have 2: "robust_psf_radial 1 (failing_lens RuntimeError) 2 (Fin 1000) 101 True
             ''psf_radial.png'' world0 = (Inl RuntimeError, world0\<lparr>printed := printed world0 @ []\<rparr>)"
    by (rule robust_first_attempt_other_exception[where lens = "failing_lens RuntimeError"
               and ks = 101 and e = RuntimeError and M = 2 and j = 0 and depth = "Fin 1000"
               and eps = 1 and ls = True and psfs = "[]" and out = "[]"
               and save_name = "''psf_radial.png''" and w = world0,
               THEN conjunct2, THEN conjunct2, THEN conjunct2, THEN mp,
               OF conjI[OF M(1) conjI[OF M(2) conjI[OF l conjI[OF a ne]]]]])
  have r2: "robust_psf_radial 1 (failing_lens RuntimeError) 2 (Fin 1000) 101 True
             ''psf_radial.png'' world0 = (Inl RuntimeError, world0)"
    unfolding 2 by (simp add: world0_def)
  have 3: "failing_lens AssertionError ?p 1 True 4096 = Inl AssertionError"
    by (rule robust_first_attempt_other_exception[where lens = "failing_lens AssertionError"
               and p = ?p and ks = 1 and i = 0,
               THEN conjunct2, THEN conjunct1, THEN mp, OF s])
  show ?thesis by (intro conjI a ne 1 s n 3 r2)
qed

end
